theory Spec2Isabelle
  imports Main "HOL-Library.AList"
begin

section \<open>Goals.py: goals, goal categories and the search for required locations\<close>

text \<open>
  A shallow embedding of \<^verbatim>\<open>src/Goals.py\<close>. Python objects that the code shares and
  compares by identity (the lists held by a goal) live in a heap of cells; dictionaries are
  association lists in insertion order; every \<^verbatim>\<open>raise\<close> is a value of type \<open>error\<close>.
\<close>

subsection \<open>Errors\<close>

datatype error =
    InvalidGoal string   \<comment> \<open>\<^verbatim>\<open>Exception('Invalid goal: ...')\<close> of the constructor\<close>
  | KeyError
  | TypeError
  | AttributeError
  | ValueError
  | IndexError

subsection \<open>Dictionaries\<close>

text \<open>
  A Python \<^verbatim>\<open>dict\<close> is an association list with one pair per key, in insertion order.
  \<^verbatim>\<open>d[k] = v\<close> is \<^const>\<open>AList.update\<close>: it replaces the value in place when the key is
  there and appends the pair otherwise. \<^verbatim>\<open>k in d\<close> is \<open>map_of d k \<noteq> None\<close>.
\<close>

definition dict_get :: "('k \<times> 'v) list \<Rightarrow> 'k \<Rightarrow> error + 'v" where
  "dict_get d k = (case map_of d k of None \<Rightarrow> Inl KeyError | Some v \<Rightarrow> Inr v)"

text \<open>What a \<^verbatim>\<open>defaultdict\<close> reads at a key: the stored value, or the default.\<close>

definition dflt :: "'v \<Rightarrow> 'v option \<Rightarrow> 'v" where
  "dflt d x = (case x of None \<Rightarrow> d | Some v \<Rightarrow> v)"

subsection \<open>Data\<close>

text \<open>The display colours a goal may have (\<^verbatim>\<open>validColors\<close>).\<close>

definition validColors :: "string list" where
  "validColors = [''White'', ''Red'', ''Green'', ''Blue'', ''Light Blue'', ''Pink'',
     ''Yellow'', ''Black'']"

text \<open>
  An item spec of a goal, \<^verbatim>\<open>GoalItem\<close>: the dictionary
  \<^verbatim>\<open>{'name': ..., 'quantity': ..., 'minimum': ..., 'hintable': ...}\<close>.
\<close>

record GoalItem =
  gi_name :: string
  quantity :: int
  minimum :: int
  hintable :: bool

text \<open>An item and a location, as far as this file reads them.\<close>

record Item =
  item_name :: string
  item_world :: nat           \<comment> \<open>\<^verbatim>\<open>item.world.id\<close>\<close>
  solver_id :: "nat option"

record Location =
  loc_id :: nat               \<comment> \<open>the identity of the object\<close>
  loc_name :: string
  loc_world :: nat            \<comment> \<open>\<^verbatim>\<open>location.world.id\<close>\<close>
  loc_item :: "Item option"

text \<open>
  The list objects a goal refers to. A reference is an address; two attributes hold the
  very same list exactly when they hold the same address.
\<close>

type_synonym ref = nat

datatype cell =
    Items "GoalItem list"
  | Names "string list"
  | ReqLocs "(Location \<times> nat \<times> nat \<times> nat list) list"

type_synonym heap = "cell list"

text \<open>
  The heap is the list of the cells allocated so far: the address of a cell is its position,
  and a new object takes the next position, so that it differs from every object
  allocated before.
\<close>

definition cells :: "heap \<Rightarrow> ref \<Rightarrow> cell option" where
  "cells h r = (if r < length h then Some (h ! r) else None)"

definition alloc :: "cell \<Rightarrow> heap \<Rightarrow> ref \<times> heap" where
  "alloc c h = (length h, h @ [c])"

text \<open>Python's truth value of a list, and of an optional argument (\<^verbatim>\<open>None\<close> is false).\<close>

fun cell_truthy :: "cell option \<Rightarrow> bool" where
  "cell_truthy None = False"
| "cell_truthy (Some (Items xs)) = (xs \<noteq> [])"
| "cell_truthy (Some (Names xs)) = (xs \<noteq> [])"
| "cell_truthy (Some (ReqLocs xs)) = (xs \<noteq> [])"

fun truthy :: "heap \<Rightarrow> ref option \<Rightarrow> bool" where
  "truthy h None = False"
| "truthy h (Some r) = cell_truthy (cells h r)"

text \<open>
  \<^verbatim>\<open>x or []\<close>: the object \<open>x\<close> itself when it is true, and a newly allocated empty list
  otherwise (also when \<open>x\<close> is an empty list).
\<close>

fun or_empty :: "heap \<Rightarrow> ref option \<Rightarrow> cell \<Rightarrow> ref \<times> heap" where
  "or_empty h None e = alloc e h"
| "or_empty h (Some r) e = (if cell_truthy (cells h r) then (r, h) else alloc e h)"

definition items_at :: "heap \<Rightarrow> ref \<Rightarrow> GoalItem list" where
  "items_at h r = (case cells h r of Some (Items xs) \<Rightarrow> xs | _ \<Rightarrow> [])"

definition reqlocs_at :: "heap \<Rightarrow> ref \<Rightarrow> (Location \<times> nat \<times> nat \<times> nat list) list" where
  "reqlocs_at h r = (case cells h r of Some (ReqLocs xs) \<Rightarrow> xs | _ \<Rightarrow> [])"

text \<open>\<^verbatim>\<open>hint_text: str | dict[str, str]\<close>.\<close>

datatype hint = Plain string | Template "(string \<times> string) list"

text \<open>
  \<^verbatim>\<open>class Goal\<close>. The world and the owning category are held by their id and name.
\<close>

record Goal =
  goal_world :: nat
  goal_name :: string
  hint_text :: hint
  color :: string
  items :: ref
  locations :: "ref option"
  lock_locations :: "ref option"
  lock_entrances :: ref
  required_locations :: ref
  weight :: int
  category :: "string option"
  item_cache :: "(string \<times> GoalItem) list"

subsection \<open>\<^verbatim>\<open>Goal.__init__\<close> and \<^verbatim>\<open>Goal.copy\<close>\<close>

definition Goal_init ::
  "heap \<Rightarrow> nat \<Rightarrow> string \<Rightarrow> hint \<Rightarrow> string \<Rightarrow> ref option \<Rightarrow> ref option \<Rightarrow> ref option \<Rightarrow>
   ref option \<Rightarrow> ref option \<Rightarrow> bool \<Rightarrow> error + (Goal \<times> heap)" where
  "Goal_init h world name text col its locs lock_locs lock_ents req_locs create_empty =
    (if \<not> truthy h its \<and> \<not> truthy h locs \<and> \<not> create_empty
     then Inl (InvalidGoal ''Invalid goal: no items or destinations set'')
     else if col \<notin> set validColors
     then Inl (InvalidGoal (''Invalid goal: Color '' @ col @ '' not supported''))
     else
       (case or_empty h its (Items []) of (ri, h1) \<Rightarrow>
        case or_empty h1 lock_ents (Names []) of (re, h2) \<Rightarrow>
        case or_empty h2 req_locs (ReqLocs []) of (rr, h3) \<Rightarrow>
          Inr (\<lparr>goal_world = world, goal_name = name, hint_text = text, color = col,
                 items = ri, locations = locs, lock_locations = lock_locs,
                 lock_entrances = re, required_locations = rr, weight = 0,
                 category = None, item_cache = []\<rparr>, h3)))"

definition Goal_copy :: "heap \<Rightarrow> Goal \<Rightarrow> error + (Goal \<times> heap)" where
  "Goal_copy h g =
     Goal_init h (goal_world g) (goal_name g) (hint_text g) (color g) (Some (items g))
       (locations g) (lock_locations g) (Some (lock_entrances g))
       (Some (required_locations g)) True"

subsection \<open>\<^verbatim>\<open>class GoalCategory\<close>\<close>

record GoalCategory =
  cat_name :: string
  priority :: int
  cat_lock_locations :: "ref option"
  cat_lock_entrances :: "string list option"
  goals :: "Goal list"
  goal_count :: int
  minimum_goals :: int
  cat_weight :: int
  goal_cache :: "(string \<times> Goal) list"

definition GoalCategory_init ::
  "string \<Rightarrow> int \<Rightarrow> int \<Rightarrow> int \<Rightarrow> ref option \<Rightarrow> string list option \<Rightarrow> GoalCategory" where
  "GoalCategory_init name prio count min_goals lock_locs lock_ents =
     \<lparr>cat_name = name, priority = prio, cat_lock_locations = lock_locs,
      cat_lock_entrances = lock_ents, goals = [], goal_count = count,
      minimum_goals = min_goals, cat_weight = 0, goal_cache = []\<rparr>"

text \<open>\<^verbatim>\<open>list(goal.copy() for goal in self.goals)\<close>: the copies in order, the first error wins.\<close>

fun copy_goals :: "heap \<Rightarrow> Goal list \<Rightarrow> error + (Goal list \<times> heap)" where
  "copy_goals h [] = Inr ([], h)"
| "copy_goals h (g # gs) =
     (case Goal_copy h g of
        Inl e \<Rightarrow> Inl e
      | Inr (g', h1) \<Rightarrow>
          (case copy_goals h1 gs of
             Inl e \<Rightarrow> Inl e
           | Inr (gs', h2) \<Rightarrow> Inr (g' # gs', h2)))"

definition GoalCategory_copy :: "heap \<Rightarrow> GoalCategory \<Rightarrow> error + (GoalCategory \<times> heap)" where
  "GoalCategory_copy h c =
     (case copy_goals h (goals c) of
        Inl e \<Rightarrow> Inl e
      | Inr (gs, h') \<Rightarrow>
          Inr ((GoalCategory_init (cat_name c) (priority c) (goal_count c) (minimum_goals c)
                  (cat_lock_locations c) (cat_lock_entrances c))\<lparr>goals := gs\<rparr>, h'))"

definition add_goal :: "GoalCategory \<Rightarrow> Goal \<Rightarrow> GoalCategory" where
  "add_goal c g = c\<lparr>goals := goals c @ [g\<lparr>category := Some (cat_name c)\<rparr>]\<rparr>"

subsection \<open>Worlds and states\<close>

text \<open>
  A state of the search: the world it belongs to, by reference, and the items collected.

  Modelled from the spec: \<^verbatim>\<open>State\<close> is not part of the sources (\<^verbatim>\<open>State.py\<close>); the spec
  describes it as the per-world mutable multiset of collected items.
\<close>

record State =
  state_world :: nat
  solv_items :: "string \<Rightarrow> int"

text \<open>
  Modelled from the spec: \<^verbatim>\<open>State.item_name_count\<close> and \<^verbatim>\<open>State.has_item_goal\<close> are
  missing with \<^verbatim>\<open>State.py\<close>. The first is the number of collected items of a name. The
  second is the check that, in the words of the comment in \<^verbatim>\<open>update_reachable_goals\<close>,
  the "minimum goal requirements are reachable": the count of the item reaches the
  minimum of the item spec.
\<close>

definition item_name_count :: "State \<Rightarrow> string \<Rightarrow> int" where
  "item_name_count st n = solv_items st n"

definition has_item_goal :: "State \<Rightarrow> GoalItem \<Rightarrow> bool" where
  "has_item_goal st i = (minimum i \<le> item_name_count st (gi_name i))"

text \<open>An access rule of an entrance: a predicate on states.\<close>

type_synonym AccessRule = "State \<Rightarrow> bool"

text \<open>
  A world, as far as this file reads it: its id, its goal categories, its entrances by
  name (\<^verbatim>\<open>world.get_entrance(name)\<close> finds the entrance of that name), the two settings
  \<^verbatim>\<open>enable_goal_hints\<close> and \<^verbatim>\<open>hint_dist_user['use_default_goals']\<close>, and the names excluded
  from hints.
\<close>

record World =
  world_id :: nat
  goal_categories :: "(string \<times> GoalCategory) list"
  entrances :: "(string \<times> AccessRule) list"
  enable_goal_hints :: bool
  use_default_goals :: bool
  hint_exclusions :: "string list"

text \<open>The world objects, by reference: \<^verbatim>\<open>state.world\<close> is \<open>ws (state_world state)\<close>.\<close>

type_synonym world_store = "nat \<Rightarrow> World"

subsection \<open>\<^verbatim>\<open>GoalCategory.update_reachable_goals\<close>\<close>

text \<open>
  \<^verbatim>\<open>i['quantity'] = min(full_search.state_list[index].item_name_count(i['name']), i['quantity'])\<close>
\<close>

definition shrink_item :: "State \<Rightarrow> GoalItem \<Rightarrow> GoalItem" where
  "shrink_item st i = i\<lparr>quantity := min (item_name_count st (gi_name i)) (quantity i)\<rparr>"

text \<open>
  The body of the loop over the goals of a world's category. The item specs are changed in
  place, in the list the goal refers to. \<^verbatim>\<open>full_search.state_list[index]\<close> is read only for
  a goal with items, and raises \<^verbatim>\<open>IndexError\<close> when the index is out of range.
\<close>

definition update_goal :: "State list \<Rightarrow> nat \<Rightarrow> heap \<Rightarrow> Goal \<Rightarrow> error + heap" where
  "update_goal full index h goal =
     (if items_at h (items goal) \<noteq> [] then
        (if index < length full then
           (if list_all (has_item_goal (full ! index)) (items_at h (items goal))
            then Inr (h[items goal :=
                   Items (map (shrink_item (full ! index)) (items_at h (items goal)))])
            else Inr h)
         else Inl IndexError)
      else Inr h)"

fun update_goals :: "State list \<Rightarrow> nat \<Rightarrow> heap \<Rightarrow> Goal list \<Rightarrow> error + heap" where
  "update_goals full index h [] = Inr h"
| "update_goals full index h (g # gs) =
     (case update_goal full index h g of
        Inl e \<Rightarrow> Inl e
      | Inr h' \<Rightarrow> update_goals full index h' gs)"

text \<open>\<^verbatim>\<open>for index, state in enumerate(starting_search.state_list)\<close>, from \<open>index\<close> on.\<close>

fun update_states ::
  "world_store \<Rightarrow> string \<Rightarrow> State list \<Rightarrow> State list \<Rightarrow> nat \<Rightarrow> heap \<Rightarrow> error + heap" where
  "update_states ws name full [] index h = Inr h"
| "update_states ws name full (st # sts) index h =
     (case map_of (goal_categories (ws (state_world st))) name of
        None \<Rightarrow> update_states ws name full sts (Suc index) h
      | Some world_category \<Rightarrow>
          (case update_goals full index h (goals world_category) of
             Inl e \<Rightarrow> Inl e
           | Inr h' \<Rightarrow> update_states ws name full sts (Suc index) h'))"

text \<open>
  \<open>starting\<close> and \<open>full\<close> are the state lists of \<^verbatim>\<open>starting_search\<close> and of
  \<^verbatim>\<open>full_search\<close>; the worlds are only read, the item specs change in the heap.
\<close>

definition update_reachable_goals ::
  "world_store \<Rightarrow> GoalCategory \<Rightarrow> State list \<Rightarrow> State list \<Rightarrow> heap \<Rightarrow> error + heap" where
  "update_reachable_goals ws self starting full h =
     update_states ws (cat_name self) full starting 0 h"

subsection \<open>Locking and unlocking the entrances of a category\<close>

text \<open>
  Modelled from the spec: \<^verbatim>\<open>World.get_entrance\<close> is missing with \<^verbatim>\<open>World.py\<close>; it is the
  lookup of an entrance by its name in the world's entrance table, and fails when there is
  none. The entrance found is given as its name and its access rule.
\<close>

definition get_entrance :: "World \<Rightarrow> string \<Rightarrow> error + (string \<times> AccessRule)" where
  "get_entrance w n =
     (case map_of (entrances w) n of None \<Rightarrow> Inl KeyError | Some rule \<Rightarrow> Inr (n, rule))"

text \<open>\<^verbatim>\<open>exit.access_rule = rule\<close>, for the entrance \<open>n\<close> of the world at \<open>w\<close>.\<close>

definition set_access_rule :: "world_store \<Rightarrow> nat \<Rightarrow> string \<Rightarrow> AccessRule \<Rightarrow> world_store" where
  "set_access_rule ws w n rule =
     ws(w := (ws w)\<lparr>entrances := AList.update n rule (entrances (ws w))\<rparr>)"

text \<open>
  The loop \<^verbatim>\<open>for lock in category.lock_entrances\<close> for one state: \<open>locks\<close> is
  \<^verbatim>\<open>category_locks[index]\<close>.
\<close>

fun lock_names ::
  "nat \<Rightarrow> string list \<Rightarrow> (string \<times> AccessRule) list \<Rightarrow> world_store \<Rightarrow>
   error + ((string \<times> AccessRule) list \<times> world_store)" where
  "lock_names w [] locks ws = Inr (locks, ws)"
| "lock_names w (lock # rest) locks ws =
     (case get_entrance (ws w) lock of
        Inl e \<Rightarrow> Inl e
      | Inr (name, rule) \<Rightarrow>
          lock_names w rest (AList.update name rule locks)
            (set_access_rule ws w name (\<lambda>state. False)))"

text \<open>\<^verbatim>\<open>for index, state in enumerate(state_list)\<close>, from \<open>index\<close> on.\<close>

fun lock_states ::
  "string list \<Rightarrow> State list \<Rightarrow> nat \<Rightarrow> (nat \<times> (string \<times> AccessRule) list) list \<Rightarrow> world_store \<Rightarrow>
   error + ((nat \<times> (string \<times> AccessRule) list) list \<times> world_store)" where
  "lock_states names [] index category_locks ws = Inr (category_locks, ws)"
| "lock_states names (st # sts) index category_locks ws =
     (case lock_names (state_world st) names [] ws of
        Inl e \<Rightarrow> Inl e
      | Inr (locks, ws') \<Rightarrow>
          lock_states names sts (Suc index) (AList.update index locks category_locks) ws')"

definition lock_category_entrances ::
  "GoalCategory \<Rightarrow> State list \<Rightarrow> world_store \<Rightarrow>
   error + ((nat \<times> (string \<times> AccessRule) list) list \<times> world_store)" where
  "lock_category_entrances cat state_list ws =
     (case cat_lock_entrances cat of
        None \<Rightarrow> Inr ([], ws)
      | Some names \<Rightarrow> lock_states names state_list 0 [] ws)"

text \<open>
  \<^verbatim>\<open>for exit_name, access_rule in exits.items()\<close>: \<^verbatim>\<open>state_list[state_id]\<close> is read for
  each exit, so an index out of range raises only when there is an exit to restore.
\<close>

fun unlock_exits ::
  "State list \<Rightarrow> nat \<Rightarrow> (string \<times> AccessRule) list \<Rightarrow> world_store \<Rightarrow> error + world_store" where
  "unlock_exits state_list state_id [] ws = Inr ws"
| "unlock_exits state_list state_id ((exit_name, access_rule) # rest) ws =
     (if state_id < length state_list then
        (case get_entrance (ws (state_world (state_list ! state_id))) exit_name of
           Inl e \<Rightarrow> Inl e
         | Inr (name, old_rule) \<Rightarrow>
             unlock_exits state_list state_id rest
               (set_access_rule ws (state_world (state_list ! state_id)) name access_rule))
      else Inl IndexError)"

fun unlock_category_entrances ::
  "(nat \<times> (string \<times> AccessRule) list) list \<Rightarrow> State list \<Rightarrow> world_store \<Rightarrow>
   error + world_store" where
  "unlock_category_entrances [] state_list ws = Inr ws"
| "unlock_category_entrances ((state_id, exits) # rest) state_list ws =
     (case unlock_exits state_list state_id exits ws of
        Inl e \<Rightarrow> Inl e
      | Inr ws' \<Rightarrow> unlock_category_entrances rest state_list ws')"

text \<open>Locking, then unlocking with the locks returned and the same states.\<close>

definition lock_then_unlock ::
  "GoalCategory \<Rightarrow> State list \<Rightarrow> world_store \<Rightarrow> error + world_store" where
  "lock_then_unlock cat state_list ws =
     (case lock_category_entrances cat state_list ws of
        Inl e \<Rightarrow> Inl e
      | Inr (category_locks, ws') \<Rightarrow> unlock_category_entrances category_locks state_list ws')"

text \<open>The access rule of the entrance \<open>n\<close> of the world at \<open>w\<close>.\<close>

definition access_rule :: "world_store \<Rightarrow> nat \<Rightarrow> string \<Rightarrow> AccessRule option" where
  "access_rule ws w n = map_of (entrances (ws w)) n"

subsection \<open>\<^verbatim>\<open>Goal.requires\<close>\<close>

text \<open>
  \<^verbatim>\<open>item_table\<close> is a constant of \<^verbatim>\<open>ItemList.py\<close>, which is not part of the sources; it is
  a parameter here. Of an entry only \<^verbatim>\<open>item_table[item][3]['alias']\<close> is read: the table
  maps the name of an item to its alias, a name and a count, or to \<open>None\<close> when the fourth
  component is \<^verbatim>\<open>None\<close> or has no key \<^verbatim>\<open>'alias'\<close>. An item that is not in the table raises
  \<^verbatim>\<open>KeyError\<close>.
\<close>

type_synonym ItemTable = "(string \<times> (string \<times> nat) option) list"

definition requires :: "ItemTable \<Rightarrow> heap \<Rightarrow> Goal \<Rightarrow> string \<Rightarrow> error + bool" where
  "requires item_table h g item =
     (case map_of item_table item of
        None \<Rightarrow> Inl KeyError
      | Some special \<Rightarrow>
          Inr (list_ex
                 (\<lambda>i. gi_name i \<in> set (case special of None \<Rightarrow> [item]
                                          | Some (alias, n) \<Rightarrow> [item, alias])
                      \<and> \<not> hintable i)
                 (items_at h (items g))))"

subsection \<open>The results of the search engine\<close>

text \<open>
  Modelled from the spec: \<^verbatim>\<open>ValidGoals\<close> is declared in \<^verbatim>\<open>Search.py\<close>, which is not part of
  the sources. It is the result of \<^verbatim>\<open>beatable_goals\<close>: a dictionary from the name of a
  category to a dictionary from the name of a goal to the list of the ids of the worlds
  that can reach the goal; under the key \<^verbatim>\<open>'way of the hero'\<close> it holds a truth value
  instead.
\<close>

datatype vg_entry = VFlag bool | VGoals "(string \<times> nat list) list"

type_synonym ValidGoals = "(string \<times> vg_entry) list"

text \<open>Python's truth value of an entry.\<close>

fun vg_truthy :: "vg_entry \<Rightarrow> bool" where
  "vg_truthy (VFlag b) = b"
| "vg_truthy (VGoals d) = (d \<noteq> [])"

text \<open>
  \<^verbatim>\<open>valid_goals[category][goal]\<close>, read where the two keys are known to be there.
\<close>

definition vg_worlds :: "ValidGoals \<Rightarrow> string \<Rightarrow> string \<Rightarrow> nat list" where
  "vg_worlds vg c g =
     (case map_of vg c of Some (VGoals d) \<Rightarrow> dflt [] (map_of d g) | _ \<Rightarrow> [])"

text \<open>
  The search engine (\<^verbatim>\<open>Search.py\<close>, not part of the sources), as the operations that
  \<^verbatim>\<open>search_goals\<close> calls on the search \<open>'s\<close>:
  \<^item> \<open>world_ids_of\<close> is \<^verbatim>\<open>[state.world.id for state in search.state_list]\<close>;
  \<^item> \<open>next_reachable\<close> resumes the generator \<^verbatim>\<open>search.iter_reachable_locations(all_locations)\<close>:
    the next location and the search after it, or \<open>None\<close> when the generator is exhausted;
  \<^item> \<open>beatable_goals\<close> is \<^verbatim>\<open>search.beatable_goals(categories)\<close>, called while the item of
    the location given is detached;
  \<^item> \<open>collect\<close> is \<^verbatim>\<open>search.state_list[item.world.id].collect(item)\<close>, which raises when the
    index is out of range.
\<close>

record 's SearchOps =
  world_ids_of :: "'s \<Rightarrow> nat list"
  next_reachable :: "Location list \<Rightarrow> 's \<Rightarrow> (Location \<times> 's) option"
  beatable_goals :: "'s \<Rightarrow> Location \<Rightarrow> (string \<times> GoalCategory) list \<Rightarrow> ValidGoals"
  collect :: "'s \<Rightarrow> Item \<Rightarrow> error + 's"

subsection \<open>The required locations\<close>

text \<open>
  \<^verbatim>\<open>RequiredLocations\<close>: a dictionary whose values are, under the name of a category, the
  dictionary from the name of a goal to the dictionary from a world id to the list of
  \<^verbatim>\<open>(location, weight, weight)\<close>, and, under \<^verbatim>\<open>'way of the hero'\<close>, a plain list of locations.
\<close>

datatype rl_entry =
    ByGoal "(string \<times> (nat \<times> (Location \<times> nat \<times> nat) list) list) list"
  | Flat "Location list"

type_synonym RequiredLocations = "(string \<times> rl_entry) list"

text \<open>
  \<^verbatim>\<open>required_locations[c][g][w].append(x)\<close> on the nested \<^verbatim>\<open>defaultdict\<close>: a missing key is
  created at each level. Where the entry of \<open>c\<close> is a plain list, indexing it by the name of
  a goal raises \<^verbatim>\<open>TypeError\<close>.
\<close>

definition wd_append ::
  "nat \<Rightarrow> 'x \<Rightarrow> (nat \<times> 'x list) list \<Rightarrow> (nat \<times> 'x list) list" where
  "wd_append w x wd = AList.update w (dflt [] (map_of wd w) @ [x]) wd"

definition gd_append ::
  "string \<Rightarrow> nat \<Rightarrow> 'x \<Rightarrow> (string \<times> (nat \<times> 'x list) list) list \<Rightarrow>
   (string \<times> (nat \<times> 'x list) list) list" where
  "gd_append g w x gd = AList.update g (wd_append w x (dflt [] (map_of gd g))) gd"

definition rl_append ::
  "string \<Rightarrow> string \<Rightarrow> nat \<Rightarrow> (Location \<times> nat \<times> nat) \<Rightarrow> RequiredLocations \<Rightarrow>
   error + RequiredLocations" where
  "rl_append c g w x rl =
     (case map_of rl c of
        None \<Rightarrow> Inr (AList.update c (ByGoal (gd_append g w x [])) rl)
      | Some (ByGoal gd) \<Rightarrow> Inr (AList.update c (ByGoal (gd_append g w x gd)) rl)
      | Some (Flat ls) \<Rightarrow> Inl TypeError)"

text \<open>
  \<^verbatim>\<open>required_locations['way of the hero'].append(location)\<close>: an entry that is not a list has
  no \<^verbatim>\<open>append\<close>.
\<close>

definition woth_append :: "Location \<Rightarrow> RequiredLocations \<Rightarrow> error + RequiredLocations" where
  "woth_append location rl =
     (case map_of rl ''way of the hero'' of
        Some (Flat ls) \<Rightarrow> Inr (AList.update ''way of the hero'' (Flat (ls @ [location])) rl)
      | _ \<Rightarrow> Inl AttributeError)"

text \<open>The list recorded under a category, a goal and a world id; empty where a key is missing.\<close>

definition rl_locs ::
  "RequiredLocations \<Rightarrow> string \<Rightarrow> string \<Rightarrow> nat \<Rightarrow> (Location \<times> nat \<times> nat) list" where
  "rl_locs rl c g w =
     (case map_of rl c of
        Some (ByGoal gd) \<Rightarrow> dflt [] (map_of (dflt [] (map_of gd g)) w)
      | _ \<Rightarrow> [])"

text \<open>The list under \<^verbatim>\<open>'way of the hero'\<close>; empty where there is none.\<close>

definition woth_locs :: "RequiredLocations \<Rightarrow> Location list" where
  "woth_locs rl = (case map_of rl ''way of the hero'' of Some (Flat ls) \<Rightarrow> ls | _ \<Rightarrow> [])"

subsection \<open>\<^verbatim>\<open>search_goals\<close>\<close>

text \<open>The arguments of \<^verbatim>\<open>search_goals\<close> that it only reads, and what it reads of the worlds.\<close>

record sg_ctx =
  item_table :: ItemTable
  goal_heap :: heap
  reachable_goals :: ValidGoals
  all_locations :: "Location list"
  item_locations :: "Location list"
  always_locations :: "string list"
  world_hint_exclusions :: "nat \<Rightarrow> string list"   \<comment> \<open>\<^verbatim>\<open>world.hint_exclusions\<close>, by world id\<close>
  search_woth :: bool

text \<open>
  What the loop over the goals changes: the required locations, the priority locations
  (world id, then the name of a location, to the name of a category), and the weight of
  the category at hand.
\<close>

record sg_acc =
  acc_required :: RequiredLocations
  acc_priority :: "(nat \<times> (string \<times> string) list) list"
  acc_cat_weight :: int

text \<open>\<^verbatim>\<open>a and b\<close> where evaluating an operand may raise: \<open>b\<close> counts only when \<open>a\<close> is true.\<close>

definition and_then :: "error + bool \<Rightarrow> error + bool \<Rightarrow> error + bool" where
  "and_then a b = (case a of Inl e \<Rightarrow> Inl e | Inr x \<Rightarrow> if x then b else Inr False)"

text \<open>
  \<^verbatim>\<open>category.name in valid_goals and goal.name in valid_goals[category.name]\<close>
\<close>

definition in_valid_goals :: "ValidGoals \<Rightarrow> string \<Rightarrow> string \<Rightarrow> error + bool" where
  "in_valid_goals vg c g =
     (case map_of vg c of
        None \<Rightarrow> Inr False
      | Some (VFlag b) \<Rightarrow> Inl TypeError
      | Some (VGoals d) \<Rightarrow> Inr (map_of d g \<noteq> None))"

text \<open>
  \<^verbatim>\<open>goal.name in reachable_goals[category.name]\<close>, evaluated where the category is known
  to be a key of \<^verbatim>\<open>reachable_goals\<close>.
\<close>

definition in_reachable_goals :: "ValidGoals \<Rightarrow> string \<Rightarrow> string \<Rightarrow> error + bool" where
  "in_reachable_goals rg c g =
     (case map_of rg c of
        None \<Rightarrow> Inl KeyError
      | Some (VFlag b) \<Rightarrow> Inl TypeError
      | Some (VGoals d) \<Rightarrow> Inr (map_of d g \<noteq> None))"

text \<open>
  \<^verbatim>\<open>location.name not in priority_locations[location.world.id]
   or priority_locations[location.world.id][location.name] == category.name\<close>
\<close>

definition unclaimed ::
  "(nat \<times> (string \<times> string) list) list \<Rightarrow> Location \<Rightarrow> string \<Rightarrow> error + bool" where
  "unclaimed prio location c =
     (case map_of prio (loc_world location) of
        None \<Rightarrow> Inl KeyError
      | Some names \<Rightarrow>
          Inr (map_of names (loc_name location) = None
               \<or> map_of names (loc_name location) = Some c))"

text \<open>\<^verbatim>\<open>not goal.requires(old_item.name)\<close>\<close>

definition not_required :: "sg_ctx \<Rightarrow> Goal \<Rightarrow> Item option \<Rightarrow> error + bool" where
  "not_required ctx goal old_item =
     (case old_item of
        None \<Rightarrow> Inl AttributeError
      | Some it \<Rightarrow>
          (case requires (item_table ctx) (goal_heap ctx) goal (item_name it) of
             Inl e \<Rightarrow> Inl e
           | Inr b \<Rightarrow> Inr (\<not> b)))"

text \<open>\<^verbatim>\<open>priority_locations[location.world.id][location.name] = category.name\<close>\<close>

definition set_priority ::
  "(nat \<times> (string \<times> string) list) list \<Rightarrow> Location \<Rightarrow> string \<Rightarrow>
   (nat \<times> (string \<times> string) list) list" where
  "set_priority prio location c =
     AList.update (loc_world location)
       (AList.update (loc_name location) c (dflt [] (map_of prio (loc_world location)))) prio"

text \<open>The category that holds the claim on a location, if any.\<close>

definition claimed_by ::
  "(nat \<times> (string \<times> string) list) list \<Rightarrow> Location \<Rightarrow> string option" where
  "claimed_by prio location =
     (case map_of prio (loc_world location) of
        None \<Rightarrow> None
      | Some names \<Rightarrow> map_of names (loc_name location))"

definition location_weights :: "sg_ctx \<Rightarrow> Location \<Rightarrow> Location \<times> nat \<times> nat" where
  "location_weights ctx location =
     (if loc_name location \<in> set (always_locations ctx)
         \<or> loc_name location \<in> set (world_hint_exclusions ctx (loc_world location))
      then (location, 0, 0) else (location, 1, 1))"

text \<open>\<^verbatim>\<open>for world_id in hintable_states\<close>\<close>

fun record_states ::
  "sg_ctx \<Rightarrow> Location \<Rightarrow> string \<Rightarrow> string \<Rightarrow> nat list \<Rightarrow> RequiredLocations \<Rightarrow>
   error + RequiredLocations" where
  "record_states ctx location c g [] rl = Inr rl"
| "record_states ctx location c g (wid # rest) rl =
     (case rl_append c g wid (location_weights ctx location) rl of
        Inl e \<Rightarrow> Inl e
      | Inr rl' \<Rightarrow> record_states ctx location c g rest rl')"

text \<open>
  \<^verbatim>\<open>list(invalid_states & set(reachable_goals[category.name][goal.name]))\<close> with
  \<^verbatim>\<open>invalid_states = set(world_ids) - set(valid_goals[category.name][goal.name])\<close>. Python
  does not specify the order of a set; the list is taken in the order of \<open>world_ids\<close>.
\<close>

definition hintable_states ::
  "sg_ctx \<Rightarrow> ValidGoals \<Rightarrow> nat list \<Rightarrow> string \<Rightarrow> string \<Rightarrow> nat list" where
  "hintable_states ctx valid_goals world_ids c g =
     filter (\<lambda>w. w \<notin> set (vg_worlds valid_goals c g)
                \<and> w \<in> set (vg_worlds (reachable_goals ctx) c g))
       (remdups world_ids)"

text \<open>The body of \<^verbatim>\<open>for goal in category.goals\<close>, for the category named \<open>c\<close>.\<close>

definition goal_step ::
  "sg_ctx \<Rightarrow> ValidGoals \<Rightarrow> nat list \<Rightarrow> Location \<Rightarrow> Item option \<Rightarrow> string \<Rightarrow> Goal \<Rightarrow> sg_acc \<Rightarrow>
   error + (Goal \<times> sg_acc)" where
  "goal_step ctx valid_goals world_ids location old_item c goal acc =
     (case and_then (in_valid_goals valid_goals c (goal_name goal))
             (and_then (in_reachable_goals (reachable_goals ctx) c (goal_name goal))
               (and_then (unclaimed (acc_priority acc) location c)
                 (not_required ctx goal old_item))) of
        Inl e \<Rightarrow> Inl e
      | Inr ok \<Rightarrow>
          if ok \<and> hintable_states ctx valid_goals world_ids c (goal_name goal) \<noteq> []
          then
            (case record_states ctx location c (goal_name goal)
                    (hintable_states ctx valid_goals world_ids c (goal_name goal))
                    (acc_required acc) of
               Inl e \<Rightarrow> Inl e
             | Inr rl \<Rightarrow>
                 Inr (goal\<lparr>weight := 1\<rparr>,
                      \<lparr>acc_required = rl,
                       acc_priority = set_priority (acc_priority acc) location c,
                       acc_cat_weight = 1\<rparr>))
          else Inr (goal, acc))"

fun goals_loop ::
  "sg_ctx \<Rightarrow> ValidGoals \<Rightarrow> nat list \<Rightarrow> Location \<Rightarrow> Item option \<Rightarrow> string \<Rightarrow> Goal list \<Rightarrow>
   sg_acc \<Rightarrow> error + (Goal list \<times> sg_acc)" where
  "goals_loop ctx valid_goals world_ids location old_item c [] acc = Inr ([], acc)"
| "goals_loop ctx valid_goals world_ids location old_item c (goal # rest) acc =
     (case goal_step ctx valid_goals world_ids location old_item c goal acc of
        Inl e \<Rightarrow> Inl e
      | Inr (goal', acc') \<Rightarrow>
          (case goals_loop ctx valid_goals world_ids location old_item c rest acc' of
             Inl e \<Rightarrow> Inl e
           | Inr (rest', acc'') \<Rightarrow> Inr (goal' # rest', acc'')))"

text \<open>
  The body of \<^verbatim>\<open>for cat_name, category in categories.items()\<close>: the goals are visited when
  \<^verbatim>\<open>category.name in reachable_goals and reachable_goals[category.name]\<close>.
\<close>

definition category_step ::
  "sg_ctx \<Rightarrow> ValidGoals \<Rightarrow> nat list \<Rightarrow> Location \<Rightarrow> Item option \<Rightarrow> GoalCategory \<Rightarrow>
   RequiredLocations \<times> (nat \<times> (string \<times> string) list) list \<Rightarrow>
   error + (GoalCategory \<times> RequiredLocations \<times> (nat \<times> (string \<times> string) list) list)" where
  "category_step ctx valid_goals world_ids location old_item cat rp =
     (if (case map_of (reachable_goals ctx) (cat_name cat) of
            None \<Rightarrow> False | Some e \<Rightarrow> vg_truthy e)
      then
        (case goals_loop ctx valid_goals world_ids location old_item (cat_name cat) (goals cat)
                \<lparr>acc_required = fst rp, acc_priority = snd rp,
                 acc_cat_weight = cat_weight cat\<rparr> of
           Inl e \<Rightarrow> Inl e
         | Inr (goals', acc) \<Rightarrow>
             Inr (cat\<lparr>goals := goals', cat_weight := acc_cat_weight acc\<rparr>,
                  acc_required acc, acc_priority acc))
      else Inr (cat, rp))"

fun categories_loop ::
  "sg_ctx \<Rightarrow> ValidGoals \<Rightarrow> nat list \<Rightarrow> Location \<Rightarrow> Item option \<Rightarrow>
   (string \<times> GoalCategory) list \<Rightarrow> RequiredLocations \<times> (nat \<times> (string \<times> string) list) list \<Rightarrow>
   error + ((string \<times> GoalCategory) list \<times> RequiredLocations \<times>
            (nat \<times> (string \<times> string) list) list)" where
  "categories_loop ctx valid_goals world_ids location old_item [] rp = Inr ([], rp)"
| "categories_loop ctx valid_goals world_ids location old_item ((key, cat) # rest) rp =
     (case category_step ctx valid_goals world_ids location old_item cat rp of
        Inl e \<Rightarrow> Inl e
      | Inr (cat', rp') \<Rightarrow>
          (case categories_loop ctx valid_goals world_ids location old_item rest rp' of
             Inl e \<Rightarrow> Inl e
           | Inr (rest', rp'') \<Rightarrow> Inr ((key, cat') # rest', rp'')))"

text \<open>
  The state of the loop over the reachable locations: the required locations built so far,
  the priority locations and the categories (both arguments that the function changes),
  the search, and two logs: the locations on which \<^verbatim>\<open>maybe_set_misc_hints\<close> has been called
  (\<^verbatim>\<open>Location.py\<close> is not part of the sources; the call is recorded, in order), and the
  locations that the generator has yielded.
\<close>

record 's sg_state =
  sg_required :: RequiredLocations
  sg_priority :: "(nat \<times> (string \<times> string) list) list"
  sg_categories :: "(string \<times> GoalCategory) list"
  sg_search :: 's
  sg_misc :: "Location list"
  sg_yielded :: "Location list"

text \<open>
  \<^verbatim>\<open>if search_woth and not valid_goals['way of the hero']:
      required_locations['way of the hero'].append(location)\<close>
\<close>

definition woth_step ::
  "sg_ctx \<Rightarrow> ValidGoals \<Rightarrow> Location \<Rightarrow> RequiredLocations \<Rightarrow> error + RequiredLocations" where
  "woth_step ctx valid_goals location rl =
     (if search_woth ctx then
        (case map_of valid_goals ''way of the hero'' of
           None \<Rightarrow> Inl KeyError
         | Some e \<Rightarrow> if vg_truthy e then Inr rl else woth_append location rl)
      else Inr rl)"

text \<open>
  The block \<^verbatim>\<open>if location in item_locations:\<close> of the loop. The item of the location is
  detached while \<^verbatim>\<open>beatable_goals\<close> runs and attached again at the end.
\<close>

definition location_body ::
  "'s SearchOps \<Rightarrow> sg_ctx \<Rightarrow> nat list \<Rightarrow> Location \<Rightarrow> 's sg_state \<Rightarrow> error + 's sg_state" where
  "location_body ops ctx world_ids location st =
     (if location \<in> set (item_locations ctx) then
        (case categories_loop ctx
                (beatable_goals ops (sg_search st) (location\<lparr>loc_item := None\<rparr>)
                   (sg_categories st))
                world_ids location (loc_item location) (sg_categories st)
                (sg_required st, sg_priority st) of
           Inl e \<Rightarrow> Inl e
         | Inr (cats, rl, prio) \<Rightarrow>
             (case woth_step ctx
                     (beatable_goals ops (sg_search st) (location\<lparr>loc_item := None\<rparr>)
                        (sg_categories st))
                     location rl of
                Inl e \<Rightarrow> Inl e
              | Inr rl' \<Rightarrow>
                  Inr (st\<lparr>sg_required := rl', sg_priority := prio, sg_categories := cats\<rparr>)))
      else Inr st)"

text \<open>
  \<^verbatim>\<open>if location.item.solver_id is not None:
      search.state_list[location.item.world.id].collect(location.item)\<close>
\<close>

definition collect_step :: "'s SearchOps \<Rightarrow> Location \<Rightarrow> 's \<Rightarrow> error + 's" where
  "collect_step ops location s =
     (case loc_item location of
        None \<Rightarrow> Inl AttributeError
      | Some it \<Rightarrow> if solver_id it \<noteq> None then collect ops s it else Inr s)"

text \<open>
  \<^verbatim>\<open>for location in search.iter_reachable_locations(all_locations)\<close>. \<open>remaining\<close> is
  \<^verbatim>\<open>remaining_locations\<close>; \<^verbatim>\<open>remaining_locations.remove(location)\<close> raises \<^verbatim>\<open>ValueError\<close> for a
  location that is not in the list, so the loop makes at most as many rounds as the list
  is long.
\<close>

function search_loop ::
  "'s SearchOps \<Rightarrow> sg_ctx \<Rightarrow> nat list \<Rightarrow> Location list \<Rightarrow> 's sg_state \<Rightarrow>
   error + (Location list \<times> 's sg_state)" where
  "search_loop ops ctx world_ids remaining st =
     (case next_reachable ops (all_locations ctx) (sg_search st) of
        None \<Rightarrow> Inr (remaining, st)
      | Some (location, s1) \<Rightarrow>
          (case location_body ops ctx world_ids location
                  (st\<lparr>sg_search := s1, sg_yielded := sg_yielded st @ [location]\<rparr>) of
             Inl e \<Rightarrow> Inl e
           | Inr st1 \<Rightarrow>
               if location \<in> set remaining then
                 (case collect_step ops location (sg_search st1) of
                    Inl e \<Rightarrow> Inl e
                  | Inr s2 \<Rightarrow>
                      search_loop ops ctx world_ids (remove1 location remaining)
                        (st1\<lparr>sg_search := s2, sg_misc := sg_misc st1 @ [location]\<rparr>))
               else Inl ValueError))"
  by pat_completeness auto
termination
  by (relation "measure (\<lambda>(ops, ctx, world_ids, remaining, st). length remaining)")
    (auto simp: length_remove1 dest: length_pos_if_in_set)

text \<open>
  \<^verbatim>\<open>search_goals\<close>. The result is the dictionary returned, together with what the function
  has changed in its arguments and the two logs.
\<close>

definition search_goals ::
  "'s SearchOps \<Rightarrow> sg_ctx \<Rightarrow> (string \<times> GoalCategory) list \<Rightarrow> 's \<Rightarrow>
   (nat \<times> (string \<times> string) list) list \<Rightarrow> error + 's sg_state" where
  "search_goals ops ctx categories search priority_locations =
     (case search_loop ops ctx (world_ids_of ops search) (all_locations ctx)
             \<lparr>sg_required = (if search_woth ctx then [(''way of the hero'', Flat [])] else []),
              sg_priority = priority_locations, sg_categories = categories,
              sg_search = search, sg_misc = [], sg_yielded = []\<rparr> of
        Inl e \<Rightarrow> Inl e
      | Inr (remaining, st) \<Rightarrow> Inr (st\<lparr>sg_misc := sg_misc st @ remaining\<rparr>))"

subsection \<open>\<^verbatim>\<open>update_goal_items\<close>: the fallback to the way of the hero\<close>

text \<open>
  The spoiler, as far as \<^verbatim>\<open>update_goal_items\<close> writes it: \<^verbatim>\<open>required_locations\<close> (world id to
  the way-of-the-hero locations of the world), \<^verbatim>\<open>goal_categories\<close> (world id to the copies
  of its categories) and \<^verbatim>\<open>goal_locations\<close> (world id, category, goal, world id to
  locations).
\<close>

record Spoiler =
  sp_required_locations :: "(nat \<times> Location list) list"
  sp_goal_categories :: "(nat \<times> (string \<times> GoalCategory) list) list"
  sp_goal_locations ::
    "(nat \<times> (string \<times> (string \<times> (nat \<times> Location list) list) list) list) list"

text \<open>
  \<^verbatim>\<open>for world in worlds:
      woth_locations_dict[world.id] =
          list(filter(lambda location: location.world.id == world.id, woth_locations))\<close>
\<close>

fun woth_by_world ::
  "World list \<Rightarrow> Location list \<Rightarrow> (nat \<times> Location list) list \<Rightarrow> (nat \<times> Location list) list" where
  "woth_by_world [] woth d = d"
| "woth_by_world (w # ws) woth d =
     woth_by_world ws woth
       (AList.update (world_id w) (filter (\<lambda>location. loc_world location = world_id w) woth) d)"

text \<open>
  The condition of the fallback:
  \<^verbatim>\<open>not required_locations and 'ganon' not in worlds[0].goal_categories
   and worlds[0].hint_dist_user['use_default_goals'] and worlds[0].enable_goal_hints\<close>.
  \<^verbatim>\<open>worlds[0]\<close> is read only when \<^verbatim>\<open>required_locations\<close> is empty.
\<close>

definition fallback_condition :: "RequiredLocations \<Rightarrow> World list \<Rightarrow> error + bool" where
  "fallback_condition required worlds =
     (if required \<noteq> [] then Inr False
      else (case worlds of
              [] \<Rightarrow> Inl IndexError
            | w0 # ws \<Rightarrow>
                Inr (map_of (goal_categories w0) ''ganon'' = None
                     \<and> use_default_goals w0 \<and> enable_goal_hints w0)))"

text \<open>
  \<^verbatim>\<open>required_locations_dict[world.id]['ganon']['the hero'][world.id] = locations\<close> on the
  nested \<^verbatim>\<open>defaultdict\<close>.
\<close>

definition set_goal_locations ::
  "nat \<Rightarrow> string \<Rightarrow> string \<Rightarrow> nat \<Rightarrow> Location list \<Rightarrow>
   (nat \<times> (string \<times> (string \<times> (nat \<times> Location list) list) list) list) list \<Rightarrow>
   (nat \<times> (string \<times> (string \<times> (nat \<times> Location list) list) list) list) list" where
  "set_goal_locations gw c g w ls d =
     AList.update gw
       (AList.update c
          (AList.update g
             (AList.update w ls (dflt [] (map_of (dflt [] (map_of (dflt [] (map_of d gw)) c)) g)))
             (dflt [] (map_of (dflt [] (map_of d gw)) c)))
          (dflt [] (map_of d gw)))
       d"

text \<open>
  The goal of the fallback, for a world and its way-of-the-hero locations:
  \<^verbatim>\<open>g = Goal(world, 'the hero', 'way of the hero', 'White', items=[{'name': 'Triforce', ...}])\<close>
  and \<^verbatim>\<open>g.required_locations = locations\<close>. The list of item specs, the lists that
  the constructor makes and the list of required locations are new objects.
\<close>

definition hero_goal :: "heap \<Rightarrow> World \<Rightarrow> Location list \<Rightarrow> error + (Goal \<times> heap)" where
  "hero_goal h world woth =
     (case Goal_init
             (snd (alloc (Items [\<lparr>gi_name = ''Triforce'', quantity = 1, minimum = 1,
                                    hintable = True\<rparr>]) h))
             (world_id world) ''the hero'' (Plain ''way of the hero'') ''White''
             (Some (fst (alloc (Items [\<lparr>gi_name = ''Triforce'', quantity = 1, minimum = 1,
                                          hintable = True\<rparr>]) h)))
             None None None None False of
        Inl e \<Rightarrow> Inl e
      | Inr gh \<Rightarrow>
          Inr ((fst gh)\<lparr>required_locations :=
                  fst (alloc (ReqLocs (map (\<lambda>location. (location, 1, 1, [world_id world])) woth))
                         (snd gh))\<rparr>,
               snd (alloc (ReqLocs (map (\<lambda>location. (location, 1, 1, [world_id world])) woth))
                      (snd gh))))"

text \<open>
  The body of the loop \<^verbatim>\<open>for world in worlds\<close> of the fallback: the category \<open>c\<close> with
  the goal is stored in the world, its locations and a copy of it in the spoiler.
\<close>

definition synthesize_world ::
  "heap \<Rightarrow> World \<Rightarrow> Spoiler \<Rightarrow> error + (heap \<times> World \<times> Spoiler)" where
  "synthesize_world h world sp =
     (case dict_get (sp_required_locations sp) (world_id world) of
        Inl e \<Rightarrow> Inl e
      | Inr woth \<Rightarrow>
          (case hero_goal h world woth of
             Inl e \<Rightarrow> Inl e
           | Inr gh \<Rightarrow>
               (case GoalCategory_copy (snd gh)
                       (add_goal (GoalCategory_init ''ganon'' 30 1 1 None None) (fst gh)) of
                  Inl e \<Rightarrow> Inl e
                | Inr ch \<Rightarrow>
                    Inr (snd ch,
                         world\<lparr>goal_categories :=
                           AList.update ''ganon''
                             (add_goal (GoalCategory_init ''ganon'' 30 1 1 None None) (fst gh))
                             (goal_categories world)\<rparr>,
                         sp\<lparr>sp_goal_locations :=
                              set_goal_locations (world_id world) ''ganon'' ''the hero''
                                (world_id world) woth (sp_goal_locations sp),
                            sp_goal_categories :=
                              AList.update (world_id world) [(''ganon'', fst ch)]
                                (sp_goal_categories sp)\<rparr>))))"

fun synthesize_worlds ::
  "heap \<Rightarrow> World list \<Rightarrow> Spoiler \<Rightarrow> error + (heap \<times> World list \<times> Spoiler)" where
  "synthesize_worlds h [] sp = Inr (h, [], sp)"
| "synthesize_worlds h (world # rest) sp =
     (case synthesize_world h world sp of
        Inl e \<Rightarrow> Inl e
      | Inr (h1, world', sp1) \<Rightarrow>
          (case synthesize_worlds h1 rest sp1 of
             Inl e \<Rightarrow> Inl e
           | Inr (h2, rest', sp2) \<Rightarrow> Inr (h2, world' # rest', sp2)))"

text \<open>
  The end of \<^verbatim>\<open>update_goal_items\<close>, from the split of the way of the hero by world on.
  \<open>required\<close> is \<^verbatim>\<open>required_locations\<close> after the key \<^verbatim>\<open>way of the hero\<close> has been deleted.
  The \<^verbatim>\<open>else\<close> branch, which rebuilds the required locations of the goals from the searches,
  is the parameter \<open>otherwise\<close>. \<^verbatim>\<open>spoiler.goal_locations\<close> starts from an empty dictionary.
\<close>

definition update_goal_items_end ::
  "(heap \<Rightarrow> World list \<Rightarrow> Spoiler \<Rightarrow> error + (heap \<times> World list \<times> Spoiler)) \<Rightarrow>
   heap \<Rightarrow> World list \<Rightarrow> Spoiler \<Rightarrow> RequiredLocations \<Rightarrow> Location list \<Rightarrow>
   error + (heap \<times> World list \<times> Spoiler)" where
  "update_goal_items_end otherwise h worlds sp required woth_locations =
     (case fallback_condition required worlds of
        Inl e \<Rightarrow> Inl e
      | Inr fallback \<Rightarrow>
          if fallback then
            synthesize_worlds h worlds
              (sp\<lparr>sp_required_locations := woth_by_world worlds woth_locations [],
                  sp_goal_locations := []\<rparr>)
          else
            otherwise h worlds
              (sp\<lparr>sp_required_locations := woth_by_world worlds woth_locations []\<rparr>))"

subsection \<open>What the search leaves unchanged\<close>

text \<open>
  The search changes a goal only in its weight, which it sets to 1, and a category only in
  its weight and in the weights of its goals.
\<close>

definition goal_upto_weight :: "Goal \<Rightarrow> Goal \<Rightarrow> bool" where
  "goal_upto_weight g g' = (g' = g \<or> g' = g\<lparr>weight := 1\<rparr>)"

definition cat_upto_weight :: "GoalCategory \<Rightarrow> GoalCategory \<Rightarrow> bool" where
  "cat_upto_weight c c' =
     (c'\<lparr>goals := goals c, cat_weight := cat_weight c\<rparr> = c \<and>
      (cat_weight c' = cat_weight c \<or> cat_weight c' = 1) \<and>
      list_all2 goal_upto_weight (goals c) (goals c'))"

definition cats_upto_weight ::
  "(string \<times> GoalCategory) list \<Rightarrow> (string \<times> GoalCategory) list \<Rightarrow> bool" where
  "cats_upto_weight cs cs' =
     list_all2 (\<lambda>kc kc'. fst kc' = fst kc \<and> cat_upto_weight (snd kc) (snd kc')) cs cs'"

text \<open>
  A location is credited through a goal named \<open>g\<close> of a category named \<open>c\<close> that does
  not require the item of the location.
\<close>

definition credited_through ::
  "sg_ctx \<Rightarrow> (string \<times> GoalCategory) list \<Rightarrow> string \<Rightarrow> string \<Rightarrow> Location \<Rightarrow> bool" where
  "credited_through ctx cats c g location =
     (\<exists>kc \<in> set cats. cat_name (snd kc) = c \<and>
        (\<exists>goal \<in> set (goals (snd kc)). goal_name goal = g \<and>
           not_required ctx goal (loc_item location) = Inr True))"

text \<open>
  What holds of the required and the priority locations throughout a search over the
  categories \<open>cats\<close>, where \<open>ys\<close> are the locations that the generator has yielded.
\<close>

definition recorded_ok ::
  "sg_ctx \<Rightarrow> (string \<times> GoalCategory) list \<Rightarrow> Location list \<Rightarrow> RequiredLocations \<Rightarrow>
   (nat \<times> (string \<times> string) list) list \<Rightarrow> bool" where
  "recorded_ok ctx cats ys rl prio =
     (\<forall>c g w x. x \<in> set (rl_locs rl c g w) \<longrightarrow>
        claimed_by prio (fst x) = Some c \<and> snd x = snd (location_weights ctx (fst x)) \<and>
        fst x \<in> set ys \<and> fst x \<in> set (item_locations ctx) \<and>
        credited_through ctx cats c g (fst x))"

definition keys_ok ::
  "sg_ctx \<Rightarrow> (string \<times> GoalCategory) list \<Rightarrow> RequiredLocations \<Rightarrow> bool" where
  "keys_ok ctx cats rl =
     ((\<forall>k. map_of rl k \<noteq> None \<longrightarrow>
         (k = ''way of the hero'' \<and> search_woth ctx) \<or> (\<exists>kc \<in> set cats. cat_name (snd kc) = k)) \<and>
      (\<forall>k ls. map_of rl k = Some (Flat ls) \<longrightarrow> k = ''way of the hero'') \<and>
      (search_woth ctx \<longrightarrow> (\<exists>ls. map_of rl ''way of the hero'' = Some (Flat ls))))"

text \<open>
  Among \<open>cats\<close> there is a category named \<open>c\<close> of weight 1 with a goal named \<open>g\<close> of
  weight 1.
\<close>

definition weighted :: "(string \<times> GoalCategory) list \<Rightarrow> string \<Rightarrow> string \<Rightarrow> bool" where
  "weighted cats c g =
     (\<exists>kc \<in> set cats. cat_name (snd kc) = c \<and> cat_weight (snd kc) = 1 \<and>
        (\<exists>goal \<in> set (goals (snd kc)). goal_name goal = g \<and> weight goal = 1))"

definition weights_ok :: "(string \<times> GoalCategory) list \<Rightarrow> RequiredLocations \<Rightarrow> bool" where
  "weights_ok cats rl = (\<forall>c g w. rl_locs rl c g w \<noteq> [] \<longrightarrow> weighted cats c g)"

text \<open>The five facts together, for a state of the loop over the reachable locations.\<close>

definition sg_inv :: "sg_ctx \<Rightarrow> (string \<times> GoalCategory) list \<Rightarrow> 's sg_state \<Rightarrow> bool" where
  "sg_inv ctx cats st =
     (cats_upto_weight cats (sg_categories st) \<and>
      recorded_ok ctx cats (sg_yielded st) (sg_required st) (sg_priority st) \<and>
      keys_ok ctx cats (sg_required st) \<and>
      weights_ok (sg_categories st) (sg_required st) \<and>
      set (woth_locs (sg_required st)) \<subseteq> set (sg_yielded st))"



text \<open>
  What \<^verbatim>\<open>update_reachable_goals\<close> may make of an item spec \<open>i\<close>: the spec \<open>j\<close> has the name,
  the minimum and the flag of \<open>i\<close>, its quantity is not larger, and when the quantity has
  changed it is still at least the minimum.
\<close>

definition floor_kept :: "GoalItem \<Rightarrow> GoalItem \<Rightarrow> bool" where
  "floor_kept i j =
     (gi_name j = gi_name i \<and> minimum j = minimum i \<and> hintable j = hintable i \<and>
      quantity j \<le> quantity i \<and> (quantity j = quantity i \<or> minimum i \<le> quantity j))"

text \<open>
  What one visit of \<^verbatim>\<open>update_reachable_goals\<close> makes of the item specs of a goal, where
  \<open>st\<close> is the state of the full search: every quantity becomes the smaller of the count
  and the quantity when every spec passes \<^verbatim>\<open>has_item_goal\<close>, and nothing changes otherwise.
\<close>

definition shrunk :: "State \<Rightarrow> GoalItem list \<Rightarrow> GoalItem list" where
  "shrunk st its = (if list_all (has_item_goal st) its then map (shrink_item st) its else its)"

text \<open>
  The indices, counted from \<open>index\<close>, of the states whose world has in its category \<open>name\<close> a
  goal that holds the item list \<open>r\<close>.
\<close>

fun visits :: "world_store \<Rightarrow> string \<Rightarrow> State list \<Rightarrow> nat \<Rightarrow> ref \<Rightarrow> nat list" where
  "visits ws name [] index r = []"
| "visits ws name (st # sts) index r =
     (case map_of (goal_categories (ws (state_world st))) name of
        None \<Rightarrow> visits ws name sts (Suc index) r
      | Some world_category \<Rightarrow>
          (if r \<in> set (map items (goals world_category)) then [index] else [])
          @ visits ws name sts (Suc index) r)"

text \<open>
  What the fallback makes of a world \<open>w\<close> whose way-of-the-hero locations are \<open>ls\<close>: the world
  \<open>w'\<close> is \<open>w\<close> with, under the key \<^verbatim>\<open>ganon\<close>, a category of that name and of priority 30
  that holds one goal, \<^verbatim>\<open>the hero\<close>, whose item list and required locations are objects of
  the heap \<open>h\<close>; the required locations are the locations \<open>ls\<close>, each with the weights 1 and
  the id of the world.
\<close>

definition hero_world :: "heap \<Rightarrow> Location list \<Rightarrow> World \<Rightarrow> World \<Rightarrow> bool" where
  "hero_world h ls w w' =
     (case map_of (goal_categories w') ''ganon'' of
        None \<Rightarrow> False
      | Some c \<Rightarrow>
          w' = w\<lparr>goal_categories := AList.update ''ganon'' c (goal_categories w)\<rparr> \<and>
          cat_name c = ''ganon'' \<and> priority c = 30 \<and> goal_count c = 1 \<and> minimum_goals c = 1 \<and>
          (case goals c of
             [g] \<Rightarrow>
               goal_name g = ''the hero'' \<and> hint_text g = Plain ''way of the hero'' \<and>
               color g = ''White'' \<and> goal_world g = world_id w \<and> category g = Some ''ganon'' \<and>
               items g < length h \<and> required_locations g < length h \<and>
               items_at h (items g) =
                 [\<lparr>gi_name = ''Triforce'', quantity = 1, minimum = 1, hintable = True\<rparr>] \<and>
               reqlocs_at h (required_locations g) =
                 map (\<lambda>location. (location, 1, 1, [world_id w])) ls
           | _ \<Rightarrow> False))"

text \<open>\<^verbatim>\<open>spoiler.goal_locations[gw][c][g][w]\<close>, empty where a key is missing.\<close>

definition goal_locations_at :: "Spoiler \<Rightarrow> nat \<Rightarrow> string \<Rightarrow> string \<Rightarrow> nat \<Rightarrow> Location list" where
  "goal_locations_at sp gw c g w =
     dflt [] (map_of (dflt [] (map_of (dflt [] (map_of (dflt [] (map_of
       (sp_goal_locations sp) gw)) c)) g)) w)"

subsection \<open>Example inputs\<close>

text \<open>
  A heap holding one item list, and the goal that
  \<^verbatim>\<open>Goal(world, 'the hero', 'way of the hero', 'White', items=[{'name': 'Triforce', ...}])\<close>
  builds on it.
\<close>

definition ex_heap :: heap where
  "ex_heap = [Items [\<lparr>gi_name = ''Triforce'', quantity = 1, minimum = 1, hintable = True\<rparr>]]"

definition ex_goal :: "error + (Goal \<times> heap)" where
  "ex_goal = Goal_init ex_heap 0 ''the hero'' (Plain ''way of the hero'') ''White'' (Some 0)
     None None None None False"

text \<open>
  A world with the category \<^verbatim>\<open>skulls\<close>, whose one goal asks for 100 tokens and accepts 50,
  and a state of that world that holds \<open>n\<close> tokens.
\<close>

definition ex_skull_heap :: heap where
  "ex_skull_heap =
     [Items [\<lparr>gi_name = ''Gold Skulltula Token'', quantity = 100, minimum = 50,
              hintable = False\<rparr>],
      Names [], ReqLocs []]"

definition ex_skull_goal :: Goal where
  "ex_skull_goal = \<lparr>goal_world = 0, goal_name = ''Skulls'', hint_text = Plain ''path of Skulls'',
     color = ''Pink'', items = 0, locations = None, lock_locations = None, lock_entrances = 1,
     required_locations = 2, weight = 0, category = None, item_cache = []\<rparr>"

definition ex_skull_category :: GoalCategory where
  "ex_skull_category = add_goal (GoalCategory_init ''skulls'' 10 1 1 None None) ex_skull_goal"

definition ex_world :: World where
  "ex_world = \<lparr>world_id = 0, goal_categories = [(''skulls'', ex_skull_category)],
     entrances = [], enable_goal_hints = True, use_default_goals = True,
     hint_exclusions = []\<rparr>"

definition ex_state :: "int \<Rightarrow> State" where
  "ex_state n = \<lparr>state_world = 0,
     solv_items = (\<lambda>x. if x = ''Gold Skulltula Token'' then n else 0)\<rparr>"

text \<open>
  A world with one entrance that is always open, and a category that names this entrance
  among its lock entrances \<open>k\<close> times.
\<close>

definition ex_bridge_world :: World where
  "ex_bridge_world = \<lparr>world_id = 0, goal_categories = [],
     entrances = [(''Bridge Entrance'', \<lambda>state. True)], enable_goal_hints = True,
     use_default_goals = True, hint_exclusions = []\<rparr>"

definition ex_bridge_category :: "nat \<Rightarrow> GoalCategory" where
  "ex_bridge_category k =
     GoalCategory_init ''bridge'' 10 1 1 None (Some (replicate k ''Bridge Entrance''))"

text \<open>
  A search over one world with two locations. The generator yields \<open>L1\<close>, which holds a
  medallion, and never yields \<open>L2\<close>. Without the item of \<open>L1\<close> no goal is reachable. The
  categories are, in the order of their priorities, \<^verbatim>\<open>tokens\<close> (whose goal holds the
  medallion as an item that must not be hinted), \<^verbatim>\<open>bridge\<close> and \<^verbatim>\<open>trials\<close>.
\<close>

definition ex_L1 :: Location where
  "ex_L1 = \<lparr>loc_id = 1, loc_name = ''L1'', loc_world = 0,
     loc_item = Some \<lparr>item_name = ''Medallion'', item_world = 0, solver_id = Some 7\<rparr>\<rparr>"

definition ex_L2 :: Location where
  "ex_L2 = \<lparr>loc_id = 2, loc_name = ''L2'', loc_world = 0,
     loc_item = Some \<lparr>item_name = ''Rupee'', item_world = 0, solver_id = None\<rparr>\<rparr>"

definition ex_sg_heap :: heap where
  "ex_sg_heap =
     [Items [\<lparr>gi_name = ''Medallion'', quantity = 6, minimum = 6, hintable = True\<rparr>],
      Names [], ReqLocs [],
      Items [\<lparr>gi_name = ''Medallion'', quantity = 6, minimum = 6, hintable = False\<rparr>]]"

definition ex_sg_goal :: "string \<Rightarrow> ref \<Rightarrow> Goal" where
  "ex_sg_goal name its = \<lparr>goal_world = 0, goal_name = name, hint_text = Plain name,
     color = ''White'', items = its, locations = None, lock_locations = None,
     lock_entrances = 1, required_locations = 2, weight = 0, category = None,
     item_cache = []\<rparr>"

definition ex_sg_category :: "string \<Rightarrow> int \<Rightarrow> string \<Rightarrow> ref \<Rightarrow> GoalCategory" where
  "ex_sg_category name prio goal its =
     add_goal (GoalCategory_init name prio 1 1 None None) (ex_sg_goal goal its)"

definition ex_categories :: "(string \<times> GoalCategory) list" where
  "ex_categories =
     [(''tokens'', ex_sg_category ''tokens'' 5 ''collect tokens'' 3),
      (''bridge'', ex_sg_category ''bridge'' 10 ''open bridge'' 0),
      (''trials'', ex_sg_category ''trials'' 20 ''clear trials'' 0)]"

definition ex_valid_goals :: "nat list \<Rightarrow> ValidGoals" where
  "ex_valid_goals ws =
     [(''tokens'', VGoals [(''collect tokens'', ws)]),
      (''bridge'', VGoals [(''open bridge'', ws)]),
      (''trials'', VGoals [(''clear trials'', ws)]),
      (''way of the hero'', VFlag (ws \<noteq> []))]"

definition ex_ops :: "nat SearchOps" where
  "ex_ops = \<lparr>world_ids_of = (\<lambda>s. [0]),
     next_reachable = (\<lambda>all s. if s = 0 then Some (ex_L1, 1) else None),
     beatable_goals = (\<lambda>s location cats. ex_valid_goals []),
     collect = (\<lambda>s it. Inr s)\<rparr>"

definition ex_ctx :: sg_ctx where
  "ex_ctx = \<lparr>item_table = [(''Medallion'', None), (''Rupee'', None)],
     goal_heap = ex_sg_heap, reachable_goals = ex_valid_goals [0],
     all_locations = [ex_L1, ex_L2], item_locations = [ex_L1], always_locations = [],
     world_hint_exclusions = (\<lambda>w. []), search_woth = True\<rparr>"

definition ex_sg_result :: "nat sg_state" where
  "ex_sg_result =
     \<lparr>sg_required =
        [(''way of the hero'', Flat [ex_L1]),
         (''bridge'', ByGoal [(''open bridge'', [(0, [(ex_L1, 1, 1)])])])],
      sg_priority = [(0, [(''L1'', ''bridge'')])],
      sg_categories =
        [(''tokens'', ex_sg_category ''tokens'' 5 ''collect tokens'' 3),
         (''bridge'', (ex_sg_category ''bridge'' 10 ''open bridge'' 0)
            \<lparr>goals := [(ex_sg_goal ''open bridge'' 0)
                         \<lparr>category := Some ''bridge'', weight := 1\<rparr>],
             cat_weight := 1\<rparr>),
         (''trials'', ex_sg_category ''trials'' 20 ''clear trials'' 0)],
      sg_search = 1, sg_misc = [ex_L1, ex_L2], sg_yielded = [ex_L1]\<rparr>"

text \<open>One category that is itself named \<^verbatim>\<open>way of the hero\<close>.\<close>

definition ex_hero_categories :: "(string \<times> GoalCategory) list" where
  "ex_hero_categories =
     [(''way of the hero'', ex_sg_category ''way of the hero'' 10 ''the hero'' 0)]"

text \<open>
  Two worlds with the category \<^verbatim>\<open>skulls\<close>, each with its own goal and its own item list, and
  the state of world \<open>w\<close> that holds \<open>n\<close> tokens.
\<close>

definition ex_two_heap :: heap where
  "ex_two_heap = ex_skull_heap @
     [Items [\<lparr>gi_name = ''Gold Skulltula Token'', quantity = 100, minimum = 50,
              hintable = False\<rparr>]]"

definition ex_two_worlds :: world_store where
  "ex_two_worlds w = ex_world\<lparr>world_id := w, goal_categories :=
     [(''skulls'', add_goal (GoalCategory_init ''skulls'' 10 1 1 None None)
         (ex_skull_goal\<lparr>goal_world := w, items := 3 * w\<rparr>))]\<rparr>"

definition ex_state_of :: "nat \<Rightarrow> int \<Rightarrow> State" where
  "ex_state_of w n = (ex_state n)\<lparr>state_world := w\<rparr>"

text \<open>
  Two worlds without categories, with default goals and goal hints, and a way of the hero
  of three locations, two of them in world 0.
\<close>

definition ex_hero_worlds :: "World list" where
  "ex_hero_worlds = [ex_bridge_world, ex_bridge_world\<lparr>world_id := 1\<rparr>]"

definition ex_hero_woth :: "Location list" where
  "ex_hero_woth = [ex_L1, ex_L2\<lparr>loc_world := 1\<rparr>, ex_L2]"

text \<open>What the witness reads of a world after the fallback: per category its key, name,
  priority, and per goal the name and the required locations.\<close>

definition world_summary ::
  "heap \<Rightarrow> World \<Rightarrow>
   (string \<times> string \<times> int \<times> (string \<times> (Location \<times> nat \<times> nat \<times> nat list) list) list) list" where
  "world_summary h w =
     map (\<lambda>kc. (fst kc, cat_name (snd kc), priority (snd kc),
                 map (\<lambda>g. (goal_name g, reqlocs_at h (required_locations g))) (goals (snd kc))))
       (goal_categories w)"

section \<open>Properties\<close>

subsection \<open>Construction\<close>

lemma validColors_eight: "length validColors = 8 \<and> distinct validColors"
  by (simp add: validColors_def)

text \<open>
  C8. Constructing a goal raises exactly when no items and no locations are given while
  \<open>create_empty\<close> is false, or when the colour is not one of the eight valid colours.
  When it succeeds, the goal has weight 0, no category and an empty item cache.
\<close>

theorem Goal_init_raises_iff:
  "(case Goal_init h world name text col its locs lock_locs lock_ents req_locs create_empty of
      Inl e \<Rightarrow>
        (\<not> truthy h its \<and> \<not> truthy h locs \<and> \<not> create_empty) \<or> col \<notin> set validColors
    | Inr (g, h') \<Rightarrow>
        \<not> ((\<not> truthy h its \<and> \<not> truthy h locs \<and> \<not> create_empty) \<or> col \<notin> set validColors)
        \<and> weight g = 0 \<and> category g = None \<and> item_cache g = []
        \<and> color g = col \<and> goal_name g = name)
   \<and> length validColors = 8 \<and> distinct validColors"
  unfolding Goal_init_def using validColors_eight
  by (auto split: prod.splits)

lemma ex_goal_value:
  "ex_goal = Inr (\<lparr>goal_world = 0, goal_name = ''the hero'',
       hint_text = Plain ''way of the hero'', color = ''White'', items = 0, locations = None,
       lock_locations = None, lock_entrances = 1, required_locations = 2, weight = 0,
       category = None, item_cache = []\<rparr>,
     [Items [\<lparr>gi_name = ''Triforce'', quantity = 1, minimum = 1, hintable = True\<rparr>],
      Names [], ReqLocs []])"
  by (simp add: ex_goal_def ex_heap_def Goal_init_def validColors_def alloc_def cells_def)

text \<open>
  C9, as the claim states it, fails: a goal as the constructor builds it has an empty list
  of required locations (here at address 2), and its copy does not hold that list but a
  newly allocated empty one (address 4), because \<^verbatim>\<open>required_locations or []\<close> replaces
  an empty list by a new one.
\<close>

theorem Goal_copy_fresh_list_counterexample:
  "\<not> isl ex_goal \<and>
   \<not> isl (Goal_copy (snd (projr ex_goal)) (fst (projr ex_goal))) \<and>
   required_locations (fst (projr ex_goal)) = 2 \<and>
   required_locations (fst (projr (Goal_copy (snd (projr ex_goal)) (fst (projr ex_goal))))) = 4"
  by (simp add: ex_goal_value Goal_copy_def Goal_init_def validColors_def alloc_def cells_def)

text \<open>
  C9, amended. \<open>g.copy()\<close> raises only when the colour of \<open>g\<close> is (no longer) a valid
  colour, never for want of items or locations. Otherwise it returns a goal of weight 0 with
  no category, whatever the weight and the category of \<open>g\<close>; its items and its required
  locations are the very lists of \<open>g\<close> when these are not empty, and newly allocated empty
  lists when they are empty; no list allocated before is changed.
\<close>

theorem Goal_copy_shares_nonempty_lists:
  "case Goal_copy h g of
     Inl e \<Rightarrow> color g \<notin> set validColors
   | Inr (g', h') \<Rightarrow>
       color g \<in> set validColors \<and> weight g' = 0 \<and> category g' = None \<and>
       (if cell_truthy (cells h (items g)) then items g' = items g
        else length h \<le> items g' \<and> cells h' (items g') = Some (Items [])) \<and>
       (if cell_truthy (cells h (required_locations g))
        then required_locations g' = required_locations g
        else length h \<le> required_locations g' \<and>
             cells h' (required_locations g') = Some (ReqLocs [])) \<and>
       (\<forall>r. r < length h \<longrightarrow> cells h' r = cells h r)"
  unfolding Goal_copy_def Goal_init_def
  by (auto simp: alloc_def cells_def nth_append split: prod.splits if_splits)

theorem Goal_copy_shares_nonempty_lists_witness:
  "(0::nat) < length (snd (projr ex_goal)) \<and>
   items (fst (projr (Goal_copy (snd (projr ex_goal)) (fst (projr ex_goal))))) = 0 \<and>
   weight (fst (projr (Goal_copy (snd (projr ex_goal))
     ((fst (projr ex_goal))\<lparr>weight := 1, category := Some ''ganon''\<rparr>)))) = 0 \<and>
   cells (snd (projr (Goal_copy (snd (projr ex_goal)) (fst (projr ex_goal))))) 0
     = cells (snd (projr ex_goal)) 0"
  using Goal_copy_shares_nonempty_lists [where h = "snd (projr ex_goal)" and g = "fst (projr ex_goal)"]
  by (simp add: ex_goal_value Goal_copy_def Goal_init_def validColors_def alloc_def cells_def)

subsection \<open>Shrinking the quantities\<close>

lemma floor_kept_refl: "floor_kept i i"
  by (simp add: floor_kept_def)

lemma floor_kept_trans: "floor_kept i j \<Longrightarrow> floor_kept j k \<Longrightarrow> floor_kept i k"
  by (auto simp: floor_kept_def)

lemma floor_kept_shrink: "has_item_goal st i \<Longrightarrow> floor_kept i (shrink_item st i)"
  by (auto simp: floor_kept_def shrink_item_def has_item_goal_def min_def)

lemma list_all2_floor_refl: "list_all2 floor_kept xs xs"
  by (simp add: list_all2_refl floor_kept_refl)

lemma list_all2_floor_trans:
  "list_all2 floor_kept xs ys \<Longrightarrow> list_all2 floor_kept ys zs \<Longrightarrow> list_all2 floor_kept xs zs"
  by (rule list_all2_trans[where ?P1.0 = floor_kept and ?P2.0 = floor_kept])
    (auto intro: floor_kept_trans)

lemma list_all2_floor_shrink:
  "list_all (has_item_goal st) xs \<Longrightarrow> list_all2 floor_kept xs (map (shrink_item st) xs)"
  by (induction xs) (auto simp: floor_kept_shrink)

lemma items_at_update:
  "items_at (h[r := Items xs]) r' = (if r' = r \<and> r < length h then xs else items_at h r')"
  by (auto simp: items_at_def cells_def)

lemma items_at_nonempty_in_heap: "items_at h r \<noteq> [] \<Longrightarrow> r < length h"
  by (auto simp: items_at_def cells_def split: if_splits)

lemma update_goal_floor:
  "update_goal full index h g = Inr h' \<Longrightarrow> list_all2 floor_kept (items_at h r) (items_at h' r)"
  by (auto simp: update_goal_def items_at_update list_all2_floor_refl list_all2_floor_shrink
      split: if_splits)

lemma update_goals_floor:
  "update_goals full index h gs = Inr h' \<Longrightarrow>
   list_all2 floor_kept (items_at h r) (items_at h' r)"
proof (induction gs arbitrary: h)
  case Nil
  then show ?case by (simp add: list_all2_floor_refl)
next
  case (Cons g gs)
  then show ?case
    by (auto split: sum.splits intro: list_all2_floor_trans dest: update_goal_floor)
qed

lemma update_states_floor:
  "update_states ws name full sts index h = Inr h' \<Longrightarrow>
   list_all2 floor_kept (items_at h r) (items_at h' r)"
proof (induction sts arbitrary: h index)
  case Nil
  then show ?case by (simp add: list_all2_floor_refl)
next
  case (Cons st sts)
  then show ?case
    by (auto split: sum.splits option.splits intro: list_all2_floor_trans
        dest: update_goals_floor)
qed

lemma update_goal_returns: "index < length full \<Longrightarrow> \<exists>h'. update_goal full index h g = Inr h'"
  by (simp add: update_goal_def)

lemma update_goals_returns:
  "index < length full \<Longrightarrow> \<exists>h'. update_goals full index h gs = Inr h'"
proof (induction gs arbitrary: h)
  case Nil
  then show ?case by simp
next
  case (Cons g gs)
  from update_goal_returns[OF Cons.prems]
  obtain h1 where "update_goal full index h g = Inr h1" by blast
  with Cons.IH[OF Cons.prems] show ?case by simp
qed

lemma update_states_returns:
  "index + length sts \<le> length full \<Longrightarrow>
   \<exists>h'. update_states ws name full sts index h = Inr h'"
proof (induction sts arbitrary: h index)
  case Nil
  then show ?case by simp
next
  case (Cons st sts)
  then have i: "index < length full" and r: "Suc index + length sts \<le> length full"
    by simp_all
  show ?case
  proof (cases "map_of (goal_categories (ws (state_world st))) name")
    case None
    with Cons.IH[OF r] show ?thesis by simp
  next
    case (Some wc)
    from update_goals_returns[OF i]
    obtain h1 where "update_goals full index h (goals wc) = Inr h1" by blast
    with Some Cons.IH[OF r] show ?thesis by simp
  qed
qed

lemma shrunk_Nil [simp]: "shrunk st [] = []"
  by (simp add: shrunk_def)

lemma has_item_goal_shrink [simp]: "has_item_goal st (shrink_item st i) = has_item_goal st i"
  by (simp add: has_item_goal_def shrink_item_def)

lemma shrink_item_idem [simp]: "shrink_item st (shrink_item st i) = shrink_item st i"
  by (simp add: shrink_item_def)

lemma shrunk_idem [simp]: "shrunk st (shrunk st its) = shrunk st its"
  by (simp add: shrunk_def list_all_iff)

lemma update_goal_shrunk:
  assumes "update_goal full index h g = Inr h'"
  shows "items_at h' r = (if r = items g then shrunk (full ! index) (items_at h r)
                          else items_at h r)"
    and "r \<noteq> items g \<Longrightarrow> cells h' r = cells h r"
  using assms
  by (auto simp: update_goal_def shrunk_def items_at_update cells_def
      dest: items_at_nonempty_in_heap split: if_splits)

lemma update_goals_shrunk:
  "update_goals full index h gs = Inr h' \<Longrightarrow>
   items_at h' r = (if r \<in> set (map items gs) then shrunk (full ! index) (items_at h r)
                    else items_at h r) \<and>
   (r \<notin> set (map items gs) \<longrightarrow> cells h' r = cells h r)"
proof (induction gs arbitrary: h)
  case Nil
  then show ?case by simp
next
  case (Cons g gs)
  from Cons.prems obtain h1 where
    g: "update_goal full index h g = Inr h1" and
    r: "update_goals full index h1 gs = Inr h'"
    by (cases "update_goal full index h g") simp_all
  from Cons.IH[OF r] update_goal_shrunk[OF g, of r] show ?case
    by (cases "r = items g") simp_all
qed

lemma update_states_shrunk:
  "update_states ws name full sts index h = Inr h' \<Longrightarrow>
   items_at h' r = fold (\<lambda>i. shrunk (full ! i)) (visits ws name sts index r) (items_at h r) \<and>
   (visits ws name sts index r = [] \<longrightarrow> cells h' r = cells h r)"
proof (induction sts arbitrary: h index)
  case Nil
  then show ?case by simp
next
  case (Cons st sts)
  show ?case
  proof (cases "map_of (goal_categories (ws (state_world st))) name")
    case None
    with Cons.prems have "update_states ws name full sts (Suc index) h = Inr h'" by simp
    from Cons.IH[OF this] None show ?thesis by simp
  next
    case (Some wc)
    with Cons.prems obtain h1 where
      g: "update_goals full index h (goals wc) = Inr h1" and
      r: "update_states ws name full sts (Suc index) h1 = Inr h'"
      by (cases "update_goals full index h (goals wc)") simp_all
    from Cons.IH[OF r] update_goals_shrunk[OF g, of r] Some show ?thesis
      by (cases "r \<in> set (map items (goals wc))") simp_all
  qed
qed

text \<open>
  C2, as the claim states it, fails: the goal asks for 100 tokens and accepts 50, and the
  full search holds 60. The item spec is not fully satisfiable, yet its quantity is reduced,
  to 60.
\<close>

theorem update_reachable_goals_shrinks_below_quantity:
  "item_name_count (ex_state 60) ''Gold Skulltula Token'' < 100 \<and>
   items_at ex_skull_heap (items ex_skull_goal)
     = [\<lparr>gi_name = ''Gold Skulltula Token'', quantity = 100, minimum = 50,
         hintable = False\<rparr>] \<and>
   update_reachable_goals (\<lambda>_. ex_world) ex_skull_category [ex_state 0] [ex_state 60]
     ex_skull_heap
   = Inr [Items [\<lparr>gi_name = ''Gold Skulltula Token'', quantity = 60, minimum = 50,
                   hintable = False\<rparr>], Names [], ReqLocs []]"
  by code_simp

text \<open>
  C2, amended. On state lists of the same length, \<^verbatim>\<open>update_reachable_goals\<close> returns, and
  every item spec in the heap keeps its name and its minimum, with a quantity that is either
  unchanged or smaller and still at least the minimum. An item list is visited once for
  every state whose world has, in its category of the name of \<open>self\<close>, a goal that holds the
  list. At the visit of the state of index \<open>i\<close> the quantities become
  \<open>min (count in the state i of the full search) (quantity)\<close> when every item spec of the list
  passes \<^verbatim>\<open>has_item_goal\<close> on that state, that is when its minimum can be obtained, whether or
  not the full quantity can; they stay as they are otherwise. A list that is not visited is
  not changed.
\<close>

theorem update_reachable_goals_keeps_minimum:
  assumes "length starting = length full"
  shows "\<exists>h'. update_reachable_goals ws self starting full h = Inr h' \<and>
           (\<forall>r. list_all2 floor_kept (items_at h r) (items_at h' r)) \<and>
           (\<forall>r. items_at h' r =
                  fold (\<lambda>i its. if list_all (has_item_goal (full ! i)) its
                                 then map (shrink_item (full ! i)) its else its)
                    (visits ws (cat_name self) starting 0 r) (items_at h r)) \<and>
           (\<forall>r. visits ws (cat_name self) starting 0 r = [] \<longrightarrow> cells h' r = cells h r)"
proof -
  from assms have "0 + length starting \<le> length full" by simp
  from update_states_returns[OF this]
  obtain h' where r: "update_states ws (cat_name self) full starting 0 h = Inr h'"
    by blast
  have s: "(\<lambda>i. shrunk (full ! i)) =
      (\<lambda>i its. if list_all (has_item_goal (full ! i)) its
                then map (shrink_item (full ! i)) its else its)"
    by (intro ext) (simp add: shrunk_def)
  have "\<forall>r. list_all2 floor_kept (items_at h r) (items_at h' r)"
    using update_states_floor[OF r] by blast
  moreover have "\<forall>r. items_at h' r =
      fold (\<lambda>i. shrunk (full ! i)) (visits ws (cat_name self) starting 0 r) (items_at h r)"
    using update_states_shrunk[OF r] by blast
  moreover have "\<forall>r. visits ws (cat_name self) starting 0 r = [] \<longrightarrow> cells h' r = cells h r"
    using update_states_shrunk[OF r] by blast
  ultimately show ?thesis
    unfolding update_reachable_goals_def s[symmetric] using r by blast
qed

theorem update_reachable_goals_keeps_minimum_witness:
  "length [ex_state_of 0 0, ex_state_of 1 0] = length [ex_state_of 0 60, ex_state_of 1 80] \<and>
   update_reachable_goals ex_two_worlds ex_skull_category
     [ex_state_of 0 0, ex_state_of 1 0] [ex_state_of 0 60, ex_state_of 1 80] ex_two_heap
   = Inr [Items [\<lparr>gi_name = ''Gold Skulltula Token'', quantity = 60, minimum = 50,
                   hintable = False\<rparr>], Names [], ReqLocs [],
          Items [\<lparr>gi_name = ''Gold Skulltula Token'', quantity = 80, minimum = 50,
                   hintable = False\<rparr>]] \<and>
   visits ex_two_worlds (cat_name ex_skull_category) [ex_state_of 0 0, ex_state_of 1 0] 0 0 = [0] \<and>
   visits ex_two_worlds (cat_name ex_skull_category) [ex_state_of 0 0, ex_state_of 1 0] 0 3 = [1] \<and>
   visits ex_two_worlds (cat_name ex_skull_category) [ex_state_of 0 0, ex_state_of 1 0] 0 1 = [] \<and>
   update_reachable_goals ex_two_worlds ex_skull_category
     [ex_state_of 0 0, ex_state_of 1 0] [ex_state_of 0 60, ex_state_of 1 40] ex_two_heap
   = Inr [Items [\<lparr>gi_name = ''Gold Skulltula Token'', quantity = 60, minimum = 50,
                   hintable = False\<rparr>], Names [], ReqLocs [],
          Items [\<lparr>gi_name = ''Gold Skulltula Token'', quantity = 100, minimum = 50,
                   hintable = False\<rparr>]]"
proof -
  have a: "update_reachable_goals ex_two_worlds ex_skull_category
     [ex_state_of 0 0, ex_state_of 1 0] [ex_state_of 0 60, ex_state_of 1 80] ex_two_heap
   = Inr [Items [\<lparr>gi_name = ''Gold Skulltula Token'', quantity = 60, minimum = 50,
                   hintable = False\<rparr>], Names [], ReqLocs [],
          Items [\<lparr>gi_name = ''Gold Skulltula Token'', quantity = 80, minimum = 50,
                   hintable = False\<rparr>]]"
    by code_simp
  have b: "visits ex_two_worlds (cat_name ex_skull_category)
      [ex_state_of 0 0, ex_state_of 1 0] 0 0 = [0]"
    "visits ex_two_worlds (cat_name ex_skull_category)
      [ex_state_of 0 0, ex_state_of 1 0] 0 3 = [1]"
    "visits ex_two_worlds (cat_name ex_skull_category)
      [ex_state_of 0 0, ex_state_of 1 0] 0 1 = []"
    by code_simp+
  have c: "update_reachable_goals ex_two_worlds ex_skull_category
     [ex_state_of 0 0, ex_state_of 1 0] [ex_state_of 0 60, ex_state_of 1 40] ex_two_heap
   = Inr [Items [\<lparr>gi_name = ''Gold Skulltula Token'', quantity = 60, minimum = 50,
                   hintable = False\<rparr>], Names [], ReqLocs [],
          Items [\<lparr>gi_name = ''Gold Skulltula Token'', quantity = 100, minimum = 50,
                   hintable = False\<rparr>]]"
    by code_simp
  from update_reachable_goals_keeps_minimum [where starting = "[ex_state_of 0 0, ex_state_of 1 0]"
      and full = "[ex_state_of 0 60, ex_state_of 1 80]" and ws = ex_two_worlds
      and self = ex_skull_category and h = ex_two_heap] a b c
  show ?thesis by simp
qed

subsection \<open>Appending to the required locations\<close>

declare search_loop.simps [simp del]

lemma dflt_simps [simp]: "dflt d None = d" "dflt d (Some v) = v"
  by (simp_all add: dflt_def)

lemma wd_append_lookup:
  "dflt [] (map_of (wd_append w x wd) w') =
     (if w' = w then dflt [] (map_of wd w) @ [x] else dflt [] (map_of wd w'))"
  by (simp add: wd_append_def update_conv')

lemma gd_append_lookup:
  "dflt [] (map_of (gd_append g w x gd) g') =
     (if g' = g then wd_append w x (dflt [] (map_of gd g)) else dflt [] (map_of gd g'))"
  by (simp add: gd_append_def update_conv')

lemma rl_locs_ByGoal:
  "map_of rl c = Some (ByGoal gd) \<Longrightarrow> rl_locs rl c g w = dflt [] (map_of (dflt [] (map_of gd g)) w)"
  by (simp add: rl_locs_def)

lemma rl_locs_None: "map_of rl c = None \<Longrightarrow> rl_locs rl c g w = []"
  by (simp add: rl_locs_def)

lemma rl_locs_update_other:
  "c' \<noteq> c \<Longrightarrow> rl_locs (AList.update c e rl) c' g w = rl_locs rl c' g w"
  by (simp add: rl_locs_def update_conv')

lemma rl_locs_update_same:
  "rl_locs (AList.update c (ByGoal gd) rl) c g w = dflt [] (map_of (dflt [] (map_of gd g)) w)"
  by (simp add: rl_locs_def update_conv')

lemma rl_locs_append:
  assumes "rl_append c g w x rl = Inr rl'"
  shows "rl_locs rl' c' g' w' =
     (if c' = c \<and> g' = g \<and> w' = w then rl_locs rl c g w @ [x] else rl_locs rl c' g' w')"
proof (cases "map_of rl c")
  case None
  with assms have rl': "rl' = AList.update c (ByGoal (gd_append g w x [])) rl"
    by (simp add: rl_append_def)
  show ?thesis
  proof (cases "c' = c")
    case True
    then show ?thesis
      using None by (simp add: rl' rl_locs_update_same rl_locs_None gd_append_lookup wd_append_lookup)
  next
    case False
    then show ?thesis by (simp add: rl' rl_locs_update_other)
  qed
next
  case (Some e)
  show ?thesis
  proof (cases e)
    case (ByGoal gd)
    with Some assms have rl': "rl' = AList.update c (ByGoal (gd_append g w x gd)) rl"
      by (simp add: rl_append_def)
    show ?thesis
    proof (cases "c' = c")
      case True
      then show ?thesis
        using Some ByGoal
        by (simp add: rl' rl_locs_update_same rl_locs_ByGoal gd_append_lookup wd_append_lookup)
    next
      case False
      then show ?thesis by (simp add: rl' rl_locs_update_other)
    qed
  next
    case (Flat ls)
    with Some assms show ?thesis by (simp add: rl_append_def)
  qed
qed

lemma rl_append_flat:
  "rl_append c g w x rl = Inr rl' \<Longrightarrow>
   (map_of rl' k = Some (Flat ls)) = (map_of rl k = Some (Flat ls))"
  by (auto simp: rl_append_def update_conv' split: option.splits rl_entry.splits if_splits)

lemma rl_append_keys:
  "rl_append c g w x rl = Inr rl' \<Longrightarrow>
   (map_of rl' k = None) = (map_of rl k = None \<and> k \<noteq> c)"
  by (auto simp: rl_append_def update_conv' split: option.splits rl_entry.splits if_splits)

lemma record_states_unfold:
  "record_states ctx location c g (w # ws) rl = Inr rl' \<Longrightarrow>
   \<exists>rl1. rl_append c g w (location_weights ctx location) rl = Inr rl1 \<and>
         record_states ctx location c g ws rl1 = Inr rl'"
  by (cases "rl_append c g w (location_weights ctx location) rl") simp_all

lemma record_states_locs:
  "record_states ctx location c g ws rl = Inr rl' \<Longrightarrow>
   set (rl_locs rl' c' g' w') \<subseteq>
     set (rl_locs rl c' g' w') \<union> (if c' = c \<and> g' = g then {location_weights ctx location} else {})"
proof (induction ws arbitrary: rl)
  case Nil
  then show ?case by simp
next
  case (Cons w ws)
  from record_states_unfold[OF Cons.prems] obtain rl1 where
    a: "rl_append c g w (location_weights ctx location) rl = Inr rl1" and
    r: "record_states ctx location c g ws rl1 = Inr rl'"
    by blast
  have "set (rl_locs rl1 c' g' w') \<subseteq>
     set (rl_locs rl c' g' w') \<union> (if c' = c \<and> g' = g then {location_weights ctx location} else {})"
    by (auto simp: rl_locs_append[OF a])
  with Cons.IH[OF r] show ?case by blast
qed

lemma record_states_mono:
  "record_states ctx location c g ws rl = Inr rl' \<Longrightarrow>
   set (rl_locs rl c' g' w') \<subseteq> set (rl_locs rl' c' g' w')"
proof (induction ws arbitrary: rl)
  case Nil
  then show ?case by simp
next
  case (Cons w ws)
  from record_states_unfold[OF Cons.prems] obtain rl1 where
    a: "rl_append c g w (location_weights ctx location) rl = Inr rl1" and
    r: "record_states ctx location c g ws rl1 = Inr rl'"
    by blast
  have "set (rl_locs rl c' g' w') \<subseteq> set (rl_locs rl1 c' g' w')"
    by (auto simp: rl_locs_append[OF a])
  with Cons.IH[OF r] show ?case by blast
qed

lemma record_states_flat:
  "record_states ctx location c g ws rl = Inr rl' \<Longrightarrow>
   (map_of rl' k = Some (Flat ls)) = (map_of rl k = Some (Flat ls))"
proof (induction ws arbitrary: rl)
  case Nil
  then show ?case by simp
next
  case (Cons w ws)
  from record_states_unfold[OF Cons.prems] obtain rl1 where
    a: "rl_append c g w (location_weights ctx location) rl = Inr rl1" and
    r: "record_states ctx location c g ws rl1 = Inr rl'"
    by blast
  from Cons.IH[OF r] rl_append_flat[OF a] show ?case by simp
qed

lemma record_states_keys:
  "record_states ctx location c g ws rl = Inr rl' \<Longrightarrow> k \<noteq> c \<Longrightarrow>
   (map_of rl' k = None) = (map_of rl k = None)"
proof (induction ws arbitrary: rl)
  case Nil
  then show ?case by simp
next
  case (Cons w ws)
  from record_states_unfold[OF Cons.prems(1)] obtain rl1 where
    a: "rl_append c g w (location_weights ctx location) rl = Inr rl1" and
    r: "record_states ctx location c g ws rl1 = Inr rl'"
    by blast
  from Cons.IH[OF r Cons.prems(2)] rl_append_keys[OF a, of k] Cons.prems(2) show ?case by simp
qed

lemma and_then_True:
  "and_then a b = Inr True \<longleftrightarrow> a = Inr True \<and> b = Inr True"
  by (cases a) (auto simp: and_then_def)

lemma goal_step_cases:
  assumes "goal_step ctx vg wids location old_item c goal acc = Inr (goal', acc')"
  shows "(goal' = goal \<and> acc' = acc) \<or>
    (goal' = goal\<lparr>weight := 1\<rparr> \<and> acc_cat_weight acc' = 1 \<and>
     acc_priority acc' = set_priority (acc_priority acc) location c \<and>
     in_valid_goals vg c (goal_name goal) = Inr True \<and>
     in_reachable_goals (reachable_goals ctx) c (goal_name goal) = Inr True \<and>
     unclaimed (acc_priority acc) location c = Inr True \<and>
     not_required ctx goal old_item = Inr True \<and>
     hintable_states ctx vg wids c (goal_name goal) \<noteq> [] \<and>
     record_states ctx location c (goal_name goal)
       (hintable_states ctx vg wids c (goal_name goal)) (acc_required acc)
       = Inr (acc_required acc'))"
proof -
  let ?cond = "and_then (in_valid_goals vg c (goal_name goal))
             (and_then (in_reachable_goals (reachable_goals ctx) c (goal_name goal))
               (and_then (unclaimed (acc_priority acc) location c)
                 (not_required ctx goal old_item)))"
  let ?hs = "hintable_states ctx vg wids c (goal_name goal)"
  from assms obtain ok where ok: "?cond = Inr ok"
    unfolding goal_step_def by (cases ?cond) simp_all
  show ?thesis
  proof (cases "ok \<and> ?hs \<noteq> []")
    case False
    with assms ok show ?thesis unfolding goal_step_def by auto
  next
    case True
    with ok have c: "?cond = Inr True" by simp
    from assms ok True obtain rl where
      rl: "record_states ctx location c (goal_name goal) ?hs (acc_required acc) = Inr rl"
      and res: "goal' = goal\<lparr>weight := 1\<rparr>"
        "acc' = \<lparr>acc_required = rl, acc_priority = set_priority (acc_priority acc) location c,
                 acc_cat_weight = 1\<rparr>"
      unfolding goal_step_def
      by (cases "record_states ctx location c (goal_name goal) ?hs (acc_required acc)") simp_all
    from c have "in_valid_goals vg c (goal_name goal) = Inr True"
      "in_reachable_goals (reachable_goals ctx) c (goal_name goal) = Inr True"
      "unclaimed (acc_priority acc) location c = Inr True"
      "not_required ctx goal old_item = Inr True"
      by (simp_all add: and_then_True)
    with rl res True show ?thesis by simp
  qed
qed

subsection \<open>Properties that every credit keeps\<close>

lemma goals_loop_unfold:
  "goals_loop ctx vg wids L oi c (goal # rest) acc = Inr (gs', acc') \<Longrightarrow>
   \<exists>goal' acc1 rest'. goal_step ctx vg wids L oi c goal acc = Inr (goal', acc1) \<and>
     goals_loop ctx vg wids L oi c rest acc1 = Inr (rest', acc') \<and> gs' = goal' # rest'"
  by (auto split: sum.splits)

lemma categories_loop_unfold:
  "categories_loop ctx vg wids L oi ((key, cat) # rest) rp = Inr (cs', rp') \<Longrightarrow>
   \<exists>cat' rp1 rest'. category_step ctx vg wids L oi cat rp = Inr (cat', rp1) \<and>
     categories_loop ctx vg wids L oi rest rp1 = Inr (rest', rp') \<and> cs' = (key, cat') # rest'"
  by (auto split: sum.splits)

lemma category_step_cases:
  assumes "category_step ctx vg wids L oi cat rp = Inr (cat', rp')"
  shows "(cat' = cat \<and> rp' = rp) \<or>
    (\<exists>gs' acc'. goals_loop ctx vg wids L oi (cat_name cat) (goals cat)
        \<lparr>acc_required = fst rp, acc_priority = snd rp, acc_cat_weight = cat_weight cat\<rparr>
        = Inr (gs', acc') \<and>
      cat' = cat\<lparr>goals := gs', cat_weight := acc_cat_weight acc'\<rparr> \<and>
      rp' = (acc_required acc', acc_priority acc'))"
  using assms unfolding category_step_def
  by (auto split: if_splits sum.splits)

text \<open>a property of the required and the priority locations that every credit keeps\<close>

lemma goal_step_keeps:
  assumes run: "goal_step ctx vg wids L oi c goal acc = Inr (goal', acc')"
    and P: "P (acc_required acc) (acc_priority acc)"
    and step: "\<And>rl prio hs rl'. \<lbrakk>P rl prio; unclaimed prio L c = Inr True;
        not_required ctx goal oi = Inr True; hs \<noteq> [];
        record_states ctx L c (goal_name goal) hs rl = Inr rl';
        in_valid_goals vg c (goal_name goal) = Inr True;
        in_reachable_goals (reachable_goals ctx) c (goal_name goal) = Inr True\<rbrakk>
       \<Longrightarrow> P rl' (set_priority prio L c)"
  shows "P (acc_required acc') (acc_priority acc')"
  using goal_step_cases[OF run] P step by auto

lemma goals_loop_keeps:
  assumes run: "goals_loop ctx vg wids L oi c gs acc = Inr (gs', acc')"
    and P: "P (acc_required acc) (acc_priority acc)"
    and step: "\<And>goal rl prio hs rl'. \<lbrakk>goal \<in> set gs; P rl prio;
        unclaimed prio L c = Inr True; not_required ctx goal oi = Inr True; hs \<noteq> [];
        record_states ctx L c (goal_name goal) hs rl = Inr rl';
        in_valid_goals vg c (goal_name goal) = Inr True;
        in_reachable_goals (reachable_goals ctx) c (goal_name goal) = Inr True\<rbrakk>
       \<Longrightarrow> P rl' (set_priority prio L c)"
  shows "P (acc_required acc') (acc_priority acc')"
  using run P step
proof (induction gs arbitrary: acc gs')
  case Nil
  then show ?case by simp
next
  case (Cons goal rest)
  from goals_loop_unfold[OF Cons.prems(1)] obtain goal' acc1 rest' where
    g: "goal_step ctx vg wids L oi c goal acc = Inr (goal', acc1)" and
    r: "goals_loop ctx vg wids L oi c rest acc1 = Inr (rest', acc')"
    by blast
  have "P (acc_required acc1) (acc_priority acc1)"
    by (rule goal_step_keeps[where P = P, OF g Cons.prems(2)]) (rule Cons.prems(3), simp_all)
  then show ?case
    by (rule Cons.IH[OF r]) (rule Cons.prems(3), simp_all)
qed

lemma category_step_keeps:
  assumes run: "category_step ctx vg wids L oi cat rp = Inr (cat', rp')"
    and P: "P (fst rp) (snd rp)"
    and step: "\<And>goal rl prio hs rl'. \<lbrakk>goal \<in> set (goals cat); P rl prio;
        unclaimed prio L (cat_name cat) = Inr True; not_required ctx goal oi = Inr True;
        hs \<noteq> []; record_states ctx L (cat_name cat) (goal_name goal) hs rl = Inr rl';
        in_valid_goals vg (cat_name cat) (goal_name goal) = Inr True;
        in_reachable_goals (reachable_goals ctx) (cat_name cat) (goal_name goal) = Inr True\<rbrakk>
       \<Longrightarrow> P rl' (set_priority prio L (cat_name cat))"
  shows "P (fst rp') (snd rp')"
proof -
  from category_step_cases[OF run] show ?thesis
  proof
    assume "cat' = cat \<and> rp' = rp"
    with P show ?thesis by simp
  next
    assume "\<exists>gs' acc'. goals_loop ctx vg wids L oi (cat_name cat) (goals cat)
        \<lparr>acc_required = fst rp, acc_priority = snd rp, acc_cat_weight = cat_weight cat\<rparr>
        = Inr (gs', acc') \<and>
      cat' = cat\<lparr>goals := gs', cat_weight := acc_cat_weight acc'\<rparr> \<and>
      rp' = (acc_required acc', acc_priority acc')"
    then obtain gs' acc' where
      l: "goals_loop ctx vg wids L oi (cat_name cat) (goals cat)
        \<lparr>acc_required = fst rp, acc_priority = snd rp, acc_cat_weight = cat_weight cat\<rparr>
        = Inr (gs', acc')" and rp': "rp' = (acc_required acc', acc_priority acc')"
      by blast
    have "P (acc_required acc') (acc_priority acc')"
      by (rule goals_loop_keeps[where P = P, OF l]) (simp add: P, rule step, simp_all)
    with rp' show ?thesis by simp
  qed
qed

lemma categories_loop_keeps:
  assumes run: "categories_loop ctx vg wids L oi cs rp = Inr (cs', rp')"
    and P: "P (fst rp) (snd rp)"
    and step: "\<And>key cat goal rl prio hs rl'. \<lbrakk>(key, cat) \<in> set cs; goal \<in> set (goals cat);
        P rl prio; unclaimed prio L (cat_name cat) = Inr True;
        not_required ctx goal oi = Inr True; hs \<noteq> [];
        record_states ctx L (cat_name cat) (goal_name goal) hs rl = Inr rl';
        in_valid_goals vg (cat_name cat) (goal_name goal) = Inr True;
        in_reachable_goals (reachable_goals ctx) (cat_name cat) (goal_name goal) = Inr True\<rbrakk>
       \<Longrightarrow> P rl' (set_priority prio L (cat_name cat))"
  shows "P (fst rp') (snd rp')"
  using run P step
proof (induction cs arbitrary: rp cs')
  case Nil
  then show ?case by simp
next
  case (Cons kc rest)
  obtain key cat where kc: "kc = (key, cat)" by (cases kc)
  from categories_loop_unfold[OF Cons.prems(1)[unfolded kc]] obtain cat' rp1 rest' where
    c: "category_step ctx vg wids L oi cat rp = Inr (cat', rp1)" and
    r: "categories_loop ctx vg wids L oi rest rp1 = Inr (rest', rp')"
    by blast
  have "P (fst rp1) (snd rp1)"
    by (rule category_step_keeps[where P = P, OF c Cons.prems(2)]) (rule Cons.prems(3)[of key cat], simp_all add: kc)
  moreover have "\<And>key cat goal rl prio hs rl'. \<lbrakk>(key, cat) \<in> set rest;
        goal \<in> set (goals cat); P rl prio; unclaimed prio L (cat_name cat) = Inr True;
        not_required ctx goal oi = Inr True; hs \<noteq> [];
        record_states ctx L (cat_name cat) (goal_name goal) hs rl = Inr rl';
        in_valid_goals vg (cat_name cat) (goal_name goal) = Inr True;
        in_reachable_goals (reachable_goals ctx) (cat_name cat) (goal_name goal) = Inr True\<rbrakk>
       \<Longrightarrow> P rl' (set_priority prio L (cat_name cat))"
    using Cons.prems(3) by (meson list.set_intros(2))
  ultimately show ?case
    by (rule Cons.IH[OF r])
qed

lemma claimed_by_set_priority:
  "claimed_by (set_priority prio L c) L' =
     (if loc_world L' = loc_world L \<and> loc_name L' = loc_name L then Some c
      else claimed_by prio L')"
  by (cases "map_of prio (loc_world L)")
    (simp_all add: claimed_by_def set_priority_def update_conv')

lemma unclaimed_claimed_by:
  "unclaimed prio L c = Inr True \<Longrightarrow> claimed_by prio L = None \<or> claimed_by prio L = Some c"
  by (cases "map_of prio (loc_world L)") (auto simp: unclaimed_def claimed_by_def)

lemma claimed_by_same_key:
  "loc_world L' = loc_world L \<Longrightarrow> loc_name L' = loc_name L \<Longrightarrow>
   claimed_by prio L' = claimed_by prio L"
  by (simp add: claimed_by_def split: option.splits)

lemma fst_location_weights [simp]: "fst (location_weights ctx L) = L"
  by (simp add: location_weights_def)

lemma goal_upto_weight_refl: "goal_upto_weight g g"
  by (simp add: goal_upto_weight_def)

lemma goal_upto_weight_trans:
  "goal_upto_weight g g' \<Longrightarrow> goal_upto_weight g' g'' \<Longrightarrow> goal_upto_weight g g''"
  by (auto simp: goal_upto_weight_def)

lemma goal_upto_weight_name: "goal_upto_weight g g' \<Longrightarrow> goal_name g' = goal_name g"
  by (auto simp: goal_upto_weight_def)

lemma goal_upto_weight_one: "goal_upto_weight g g' \<Longrightarrow> weight g = 1 \<Longrightarrow> weight g' = 1"
  by (auto simp: goal_upto_weight_def)

lemma requires_weight [simp]: "requires tbl h (g\<lparr>weight := w\<rparr>) item = requires tbl h g item"
  by (simp add: requires_def cong: option.case_cong)

lemma goal_upto_weight_not_required:
  "goal_upto_weight g g' \<Longrightarrow> not_required ctx g' oi = not_required ctx g oi"
  by (auto simp: goal_upto_weight_def not_required_def split: option.splits)

lemma goals_upto_weight_trans:
  "list_all2 goal_upto_weight xs ys \<Longrightarrow> list_all2 goal_upto_weight ys zs \<Longrightarrow>
   list_all2 goal_upto_weight xs zs"
  by (rule list_all2_trans[where ?P1.0 = goal_upto_weight and ?P2.0 = goal_upto_weight])
    (auto intro: goal_upto_weight_trans)

lemma cat_upto_weight_refl: "cat_upto_weight c c"
  by (simp add: cat_upto_weight_def list_all2_refl goal_upto_weight_refl)

lemma cat_upto_weight_name: "cat_upto_weight c c' \<Longrightarrow> cat_name c' = cat_name c"
  by (cases c, cases c') (simp add: cat_upto_weight_def)

lemma cat_upto_weight_trans:
  "cat_upto_weight c c' \<Longrightarrow> cat_upto_weight c' c'' \<Longrightarrow> cat_upto_weight c c''"
  by (cases c, cases c', cases c'')
    (auto simp: cat_upto_weight_def intro: goals_upto_weight_trans)

lemma cats_upto_weight_refl: "cats_upto_weight cs cs"
  by (simp add: cats_upto_weight_def list_all2_refl cat_upto_weight_refl)

lemma cats_upto_weight_trans:
  "cats_upto_weight cs cs' \<Longrightarrow> cats_upto_weight cs' cs'' \<Longrightarrow> cats_upto_weight cs cs''"
  unfolding cats_upto_weight_def
  by (rule list_all2_trans[where
        ?P1.0 = "\<lambda>kc kc'. fst kc' = fst kc \<and> cat_upto_weight (snd kc) (snd kc')" and
        ?P2.0 = "\<lambda>kc kc'. fst kc' = fst kc \<and> cat_upto_weight (snd kc) (snd kc')"])
    (auto intro: cat_upto_weight_trans)

lemma goal_step_upto:
  assumes "goal_step ctx vg wids L oi c goal acc = Inr (goal', acc')"
  shows "goal_upto_weight goal goal' \<and>
    (acc_cat_weight acc' = acc_cat_weight acc \<or> acc_cat_weight acc' = 1)"
  using goal_step_cases[OF assms] by (auto simp: goal_upto_weight_def)

lemma goals_loop_upto:
  "goals_loop ctx vg wids L oi c gs acc = Inr (gs', acc') \<Longrightarrow>
   list_all2 goal_upto_weight gs gs' \<and>
   (acc_cat_weight acc' = acc_cat_weight acc \<or> acc_cat_weight acc' = 1)"
proof (induction gs arbitrary: acc gs')
  case Nil
  then show ?case by simp
next
  case (Cons goal rest)
  from goals_loop_unfold[OF Cons.prems] obtain goal' acc1 rest' where
    g: "goal_step ctx vg wids L oi c goal acc = Inr (goal', acc1)" and
    r: "goals_loop ctx vg wids L oi c rest acc1 = Inr (rest', acc')" and
    gs': "gs' = goal' # rest'"
    by blast
  from goal_step_upto[OF g] Cons.IH[OF r] gs' show ?case by auto
qed

lemma category_step_upto:
  assumes "category_step ctx vg wids L oi cat rp = Inr (cat', rp')"
  shows "cat_upto_weight cat cat'"
proof -
  from category_step_cases[OF assms] show ?thesis
  proof
    assume "cat' = cat \<and> rp' = rp"
    then show ?thesis by (simp add: cat_upto_weight_refl)
  next
    assume "\<exists>gs' acc'. goals_loop ctx vg wids L oi (cat_name cat) (goals cat)
        \<lparr>acc_required = fst rp, acc_priority = snd rp, acc_cat_weight = cat_weight cat\<rparr>
        = Inr (gs', acc') \<and>
      cat' = cat\<lparr>goals := gs', cat_weight := acc_cat_weight acc'\<rparr> \<and>
      rp' = (acc_required acc', acc_priority acc')"
    then obtain gs' acc' where
      l: "goals_loop ctx vg wids L oi (cat_name cat) (goals cat)
        \<lparr>acc_required = fst rp, acc_priority = snd rp, acc_cat_weight = cat_weight cat\<rparr>
        = Inr (gs', acc')" and
      c: "cat' = cat\<lparr>goals := gs', cat_weight := acc_cat_weight acc'\<rparr>"
      by blast
    from goals_loop_upto[OF l] c show ?thesis
      by (cases cat) (auto simp: cat_upto_weight_def)
  qed
qed

lemma categories_loop_upto:
  "categories_loop ctx vg wids L oi cs rp = Inr (cs', rp') \<Longrightarrow> cats_upto_weight cs cs'"
proof (induction cs arbitrary: rp cs')
  case Nil
  then show ?case by (simp add: cats_upto_weight_def)
next
  case (Cons kc rest)
  obtain key cat where kc: "kc = (key, cat)" by (cases kc)
  from categories_loop_unfold[OF Cons.prems[unfolded kc]] obtain cat' rp1 rest' where
    c: "category_step ctx vg wids L oi cat rp = Inr (cat', rp1)" and
    r: "categories_loop ctx vg wids L oi rest rp1 = Inr (rest', rp')" and
    cs': "cs' = (key, cat') # rest'"
    by blast
  from category_step_upto[OF c] Cons.IH[OF r] show ?case
    by (simp add: cats_upto_weight_def kc cs')
qed

lemma goal_step_new:
  assumes run: "goal_step ctx vg wids L oi c goal acc = Inr (goal', acc')"
    and new: "set (rl_locs (acc_required acc') c' g w) \<noteq> set (rl_locs (acc_required acc) c' g w)"
  shows "c' = c \<and> g = goal_name goal \<and> weight goal' = 1 \<and> acc_cat_weight acc' = 1"
proof -
  from goal_step_cases[OF run] new have
    res: "goal' = goal\<lparr>weight := 1\<rparr>" "acc_cat_weight acc' = 1" and
    rec: "record_states ctx L c (goal_name goal)
       (hintable_states ctx vg wids c (goal_name goal)) (acc_required acc)
       = Inr (acc_required acc')"
    by auto
  from record_states_locs[OF rec, of c' g w] record_states_mono[OF rec, of c' g w] new
  have "c' = c \<and> g = goal_name goal"
    by (auto split: if_splits)
  with res show ?thesis by simp
qed

lemma goals_loop_new:
  "goals_loop ctx vg wids L oi c gs acc = Inr (gs', acc') \<Longrightarrow>
   set (rl_locs (acc_required acc') c' g w) \<noteq> set (rl_locs (acc_required acc) c' g w) \<Longrightarrow>
   c' = c \<and> acc_cat_weight acc' = 1 \<and>
   (\<exists>goal' \<in> set gs'. goal_name goal' = g \<and> weight goal' = 1)"
proof (induction gs arbitrary: acc gs')
  case Nil
  then show ?case by simp
next
  case (Cons goal rest)
  from goals_loop_unfold[OF Cons.prems(1)] obtain goal' acc1 rest' where
    g: "goal_step ctx vg wids L oi c goal acc = Inr (goal', acc1)" and
    r: "goals_loop ctx vg wids L oi c rest acc1 = Inr (rest', acc')" and
    gs': "gs' = goal' # rest'"
    by blast
  show ?case
  proof (cases "set (rl_locs (acc_required acc') c' g w) = set (rl_locs (acc_required acc1) c' g w)")
    case True
    with Cons.prems(2) have
      "set (rl_locs (acc_required acc1) c' g w) \<noteq> set (rl_locs (acc_required acc) c' g w)"
      by simp
    from goal_step_new[OF g this] goals_loop_upto[OF r] goal_step_upto[OF g] gs'
    show ?thesis by (auto simp: goal_upto_weight_def)
  next
    case False
    from Cons.IH[OF r False] gs' show ?thesis by auto
  qed
qed

lemma category_step_new:
  assumes run: "category_step ctx vg wids L oi cat rp = Inr (cat', rp')"
    and new: "set (rl_locs (fst rp') c g w) \<noteq> set (rl_locs (fst rp) c g w)"
  shows "cat_name cat' = c \<and> cat_weight cat' = 1 \<and>
    (\<exists>goal' \<in> set (goals cat'). goal_name goal' = g \<and> weight goal' = 1)"
proof -
  from category_step_cases[OF run] new obtain gs' acc' where
      l: "goals_loop ctx vg wids L oi (cat_name cat) (goals cat)
        \<lparr>acc_required = fst rp, acc_priority = snd rp, acc_cat_weight = cat_weight cat\<rparr>
        = Inr (gs', acc')" and
      c: "cat' = cat\<lparr>goals := gs', cat_weight := acc_cat_weight acc'\<rparr>" and
      rp': "rp' = (acc_required acc', acc_priority acc')"
    by auto
  from new rp' have "set (rl_locs (acc_required acc') c g w) \<noteq>
     set (rl_locs (acc_required \<lparr>acc_required = fst rp, acc_priority = snd rp,
        acc_cat_weight = cat_weight cat\<rparr>) c g w)"
    by simp
  from goals_loop_new[OF l this] c show ?thesis by simp
qed

lemma categories_loop_new:
  "categories_loop ctx vg wids L oi cs rp = Inr (cs', rp') \<Longrightarrow>
   set (rl_locs (fst rp') c g w) \<noteq> set (rl_locs (fst rp) c g w) \<Longrightarrow>
   \<exists>kc' \<in> set cs'. cat_name (snd kc') = c \<and> cat_weight (snd kc') = 1 \<and>
     (\<exists>goal' \<in> set (goals (snd kc')). goal_name goal' = g \<and> weight goal' = 1)"
proof (induction cs arbitrary: rp cs')
  case Nil
  then show ?case by simp
next
  case (Cons kc rest)
  obtain key cat where kc: "kc = (key, cat)" by (cases kc)
  from categories_loop_unfold[OF Cons.prems(1)[unfolded kc]] obtain cat' rp1 rest' where
    c: "category_step ctx vg wids L oi cat rp = Inr (cat', rp1)" and
    r: "categories_loop ctx vg wids L oi rest rp1 = Inr (rest', rp')" and
    cs': "cs' = (key, cat') # rest'"
    by blast
  show ?case
  proof (cases "set (rl_locs (fst rp') c g w) = set (rl_locs (fst rp1) c g w)")
    case True
    with Cons.prems(2) have "set (rl_locs (fst rp1) c g w) \<noteq> set (rl_locs (fst rp) c g w)"
      by simp
    from category_step_new[OF c this] cs' show ?thesis by auto
  next
    case False
    from Cons.IH[OF r False] cs' show ?thesis by auto
  qed
qed

lemma upto_credited:
  assumes up: "cats_upto_weight cats cs"
    and kc: "(key, cat) \<in> set cs" and g: "goal \<in> set (goals cat)"
    and nr: "not_required ctx goal (loc_item L) = Inr True"
  shows "credited_through ctx cats (cat_name cat) (goal_name goal) L"
proof -
  from kc obtain i where i: "i < length cs" "cs ! i = (key, cat)"
    by (auto simp: in_set_conv_nth)
  from up have len: "length cats = length cs"
    and rel: "\<And>j. j < length cs \<Longrightarrow> cat_upto_weight (snd (cats ! j)) (snd (cs ! j))"
    by (auto simp: cats_upto_weight_def list_all2_conv_all_nth)
  from rel[OF i(1)] i(2) have cu: "cat_upto_weight (snd (cats ! i)) cat" by simp
  then have gl: "list_all2 goal_upto_weight (goals (snd (cats ! i))) (goals cat)"
    by (simp add: cat_upto_weight_def)
  from g obtain j where j: "j < length (goals cat)" "goals cat ! j = goal"
    by (auto simp: in_set_conv_nth)
  from gl j have gu: "goal_upto_weight (goals (snd (cats ! i)) ! j) goal"
    and jl: "j < length (goals (snd (cats ! i)))"
    by (auto simp: list_all2_conv_all_nth)
  have "cats ! i \<in> set cats" using i(1) len by simp
  moreover have "goals (snd (cats ! i)) ! j \<in> set (goals (snd (cats ! i)))"
    using jl by simp
  moreover have "goal_name (goals (snd (cats ! i)) ! j) = goal_name goal"
    using goal_upto_weight_name[OF gu] by simp
  moreover have "not_required ctx (goals (snd (cats ! i)) ! j) (loc_item L) = Inr True"
    using goal_upto_weight_not_required[OF gu, of ctx "loc_item L"] nr by simp
  moreover have "cat_name (snd (cats ! i)) = cat_name cat"
    using cat_upto_weight_name[OF cu] by simp
  ultimately show ?thesis
    unfolding credited_through_def
    by (intro bexI[where x = "cats ! i"] bexI[where x = "goals (snd (cats ! i)) ! j"] conjI)
qed

lemma credited_through_category:
  "credited_through ctx cats c g L \<Longrightarrow> \<exists>kc \<in> set cats. cat_name (snd kc) = c"
  unfolding credited_through_def by blast

lemma recorded_okD:
  assumes "recorded_ok ctx cats ys rl prio" and "x \<in> set (rl_locs rl c g w)"
  shows "claimed_by prio (fst x) = Some c \<and> snd x = snd (location_weights ctx (fst x)) \<and>
        fst x \<in> set ys \<and> fst x \<in> set (item_locations ctx) \<and>
        credited_through ctx cats c g (fst x)"
proof -
  from assms(1) have "x \<in> set (rl_locs rl c g w) \<longrightarrow>
        claimed_by prio (fst x) = Some c \<and> snd x = snd (location_weights ctx (fst x)) \<and>
        fst x \<in> set ys \<and> fst x \<in> set (item_locations ctx) \<and>
        credited_through ctx cats c g (fst x)"
    unfolding recorded_ok_def
    by (elim allE[where x = c] allE[where x = g] allE[where x = w] allE[where x = x])
  with assms(2) show ?thesis by (rule mp[rotated])
qed

lemma keys_okD1:
  assumes "keys_ok ctx cats rl" and "map_of rl k \<noteq> None"
  shows "(k = ''way of the hero'' \<and> search_woth ctx) \<or> (\<exists>kc \<in> set cats. cat_name (snd kc) = k)"
proof -
  from assms(1) have "\<forall>k. map_of rl k \<noteq> None \<longrightarrow>
         (k = ''way of the hero'' \<and> search_woth ctx) \<or> (\<exists>kc \<in> set cats. cat_name (snd kc) = k)"
    unfolding keys_ok_def by (rule conjunct1)
  then have "map_of rl k \<noteq> None \<longrightarrow>
         (k = ''way of the hero'' \<and> search_woth ctx) \<or> (\<exists>kc \<in> set cats. cat_name (snd kc) = k)"
    by (rule spec)
  with assms(2) show ?thesis by (rule mp[rotated])
qed

lemma keys_okD2:
  assumes "keys_ok ctx cats rl" and "map_of rl k = Some (Flat ls)"
  shows "k = ''way of the hero''"
proof -
  from assms(1) have "\<forall>k ls. map_of rl k = Some (Flat ls) \<longrightarrow> k = ''way of the hero''"
    unfolding keys_ok_def by (elim conjE)
  then have "map_of rl k = Some (Flat ls) \<longrightarrow> k = ''way of the hero''"
    by (elim allE[where x = k] allE[where x = ls])
  with assms(2) show ?thesis by (rule mp[rotated])
qed

lemma keys_okD3:
  assumes "keys_ok ctx cats rl" and "search_woth ctx"
  shows "\<exists>ls. map_of rl ''way of the hero'' = Some (Flat ls)"
proof -
  from assms(1) have "search_woth ctx \<longrightarrow> (\<exists>ls. map_of rl ''way of the hero'' = Some (Flat ls))"
    unfolding keys_ok_def by (elim conjE)
  with assms(2) show ?thesis by (rule mp[rotated])
qed

lemma keys_okI:
  assumes "\<And>k. map_of rl k \<noteq> None \<Longrightarrow>
      (k = ''way of the hero'' \<and> search_woth ctx) \<or> (\<exists>kc \<in> set cats. cat_name (snd kc) = k)"
    and "\<And>k ls. map_of rl k = Some (Flat ls) \<Longrightarrow> k = ''way of the hero''"
    and "search_woth ctx \<Longrightarrow> \<exists>ls. map_of rl ''way of the hero'' = Some (Flat ls)"
  shows "keys_ok ctx cats rl"
  unfolding keys_ok_def
proof (intro conjI allI impI)
  fix k assume "map_of rl k \<noteq> None"
  then show "(k = ''way of the hero'' \<and> search_woth ctx) \<or> (\<exists>kc \<in> set cats. cat_name (snd kc) = k)"
    by (rule assms(1))
next
  fix k ls assume "map_of rl k = Some (Flat ls)"
  then show "k = ''way of the hero''" by (rule assms(2))
next
  assume "search_woth ctx"
  then show "\<exists>ls. map_of rl ''way of the hero'' = Some (Flat ls)" by (rule assms(3))
qed

lemma credit_keeps_recorded:
  assumes ok: "recorded_ok ctx cats ys rl prio"
    and un: "unclaimed prio L c = Inr True"
    and L: "L \<in> set ys" "L \<in> set (item_locations ctx)"
    and ct: "credited_through ctx cats c g L"
    and rec: "record_states ctx L c g hs rl = Inr rl'"
  shows "recorded_ok ctx cats ys rl' (set_priority prio L c)"
  unfolding recorded_ok_def
proof (intro allI impI)
  fix c' g' w x
  assume x: "x \<in> set (rl_locs rl' c' g' w)"
  from record_states_locs[OF rec, of c' g' w] x
  consider (old) "x \<in> set (rl_locs rl c' g' w)"
    | (new) "c' = c" "g' = g" "x = location_weights ctx L"
    by (auto split: if_splits)
  then show "claimed_by (set_priority prio L c) (fst x) = Some c' \<and>
        snd x = snd (location_weights ctx (fst x)) \<and> fst x \<in> set ys \<and>
        fst x \<in> set (item_locations ctx) \<and> credited_through ctx cats c' g' (fst x)"
  proof cases
    case old
    from recorded_okD[OF ok old] have a: "claimed_by prio (fst x) = Some c'" and
      b: "snd x = snd (location_weights ctx (fst x)) \<and> fst x \<in> set ys \<and>
        fst x \<in> set (item_locations ctx) \<and> credited_through ctx cats c' g' (fst x)"
      by (rule conjunct1, rule conjunct2)
    have "claimed_by (set_priority prio L c) (fst x) = Some c'"
    proof (cases "loc_world (fst x) = loc_world L \<and> loc_name (fst x) = loc_name L")
      case True
      then have "claimed_by prio (fst x) = claimed_by prio L"
        by (intro claimed_by_same_key) simp_all
      with a unclaimed_claimed_by[OF un] have "c' = c" by simp
      with True show ?thesis by (simp add: claimed_by_set_priority)
    next
      case False
      with a show ?thesis by (auto simp: claimed_by_set_priority)
    qed
    with b show ?thesis by simp
  next
    case new
    with L ct show ?thesis by (simp add: claimed_by_set_priority)
  qed
qed

lemma credit_keeps_keys:
  assumes ok: "keys_ok ctx cats rl"
    and ct: "credited_through ctx cats c g L"
    and rec: "record_states ctx L c g hs rl = Inr rl'"
  shows "keys_ok ctx cats rl'"
proof (rule keys_okI)
  fix k assume k: "map_of rl' k \<noteq> None"
  show "(k = ''way of the hero'' \<and> search_woth ctx) \<or> (\<exists>kc \<in> set cats. cat_name (snd kc) = k)"
  proof (cases "k = c")
    case True
    with credited_through_category[OF ct] show ?thesis by simp
  next
    case False
    with record_states_keys[OF rec False] k have "map_of rl k \<noteq> None" by simp
    then show ?thesis by (rule keys_okD1[OF ok])
  qed
next
  fix k ls assume "map_of rl' k = Some (Flat ls)"
  then have "map_of rl k = Some (Flat ls)" by (simp add: record_states_flat[OF rec])
  then show "k = ''way of the hero''" by (rule keys_okD2[OF ok])
next
  assume "search_woth ctx"
  from keys_okD3[OF ok this] obtain ls where "map_of rl ''way of the hero'' = Some (Flat ls)" ..
  then have "map_of rl' ''way of the hero'' = Some (Flat ls)"
    by (simp add: record_states_flat[OF rec])
  then show "\<exists>ls. map_of rl' ''way of the hero'' = Some (Flat ls)" ..
qed

lemma woth_append_cases:
  assumes "woth_append L rl = Inr rl'"
  shows "\<exists>ls. map_of rl ''way of the hero'' = Some (Flat ls) \<and>
     rl' = AList.update ''way of the hero'' (Flat (ls @ [L])) rl"
  using assms unfolding woth_append_def
  by (auto split: option.splits rl_entry.splits)

lemma woth_append_locs:
  assumes "woth_append L rl = Inr rl'"
  shows "rl_locs rl' c g w = rl_locs rl c g w"
proof -
  from woth_append_cases[OF assms] obtain ls where
    m: "map_of rl ''way of the hero'' = Some (Flat ls)" and
    rl': "rl' = AList.update ''way of the hero'' (Flat (ls @ [L])) rl"
    by blast
  show ?thesis
  proof (cases "c = ''way of the hero''")
    case True
    with m show ?thesis by (simp add: rl' rl_locs_def update_conv')
  next
    case False
    then show ?thesis by (simp add: rl' rl_locs_update_other)
  qed
qed

lemma woth_append_woth:
  assumes "woth_append L rl = Inr rl'"
  shows "woth_locs rl' = woth_locs rl @ [L]"
proof -
  from woth_append_cases[OF assms] obtain ls where
    m: "map_of rl ''way of the hero'' = Some (Flat ls)" and
    rl': "rl' = AList.update ''way of the hero'' (Flat (ls @ [L])) rl"
    by blast
  then show ?thesis by (simp add: woth_locs_def update_conv')
qed

lemma woth_append_keys:
  assumes "woth_append L rl = Inr rl'" and "keys_ok ctx cats rl"
  shows "keys_ok ctx cats rl'"
proof -
  from woth_append_cases[OF assms(1)] obtain ls where
    m: "map_of rl ''way of the hero'' = Some (Flat ls)" and
    rl': "rl' = AList.update ''way of the hero'' (Flat (ls @ [L])) rl"
    by blast
  have lk: "\<And>k. map_of rl' k =
      (if k = ''way of the hero'' then Some (Flat (ls @ [L])) else map_of rl k)"
    by (simp add: rl' update_conv')
  show ?thesis
  proof (rule keys_okI)
    fix k assume "map_of rl' k \<noteq> None"
    with m have "map_of rl k \<noteq> None" by (simp add: lk split: if_splits)
    then show "(k = ''way of the hero'' \<and> search_woth ctx) \<or>
        (\<exists>kc \<in> set cats. cat_name (snd kc) = k)"
      by (rule keys_okD1[OF assms(2)])
  next
    fix k ls' assume a: "map_of rl' k = Some (Flat ls')"
    show "k = ''way of the hero''"
    proof (cases "k = ''way of the hero''")
      case True then show ?thesis .
    next
      case False
      with a have "map_of rl k = Some (Flat ls')" by (simp add: lk)
      then show ?thesis by (rule keys_okD2[OF assms(2)])
    qed
  next
    show "\<exists>ls. map_of rl' ''way of the hero'' = Some (Flat ls)" by (simp add: lk)
  qed
qed

lemma record_states_woth:
  assumes "record_states ctx L c g hs rl = Inr rl'"
  shows "woth_locs rl' = woth_locs rl"
proof (cases "\<exists>ls. map_of rl ''way of the hero'' = Some (Flat ls)")
  case True
  then obtain ls where m: "map_of rl ''way of the hero'' = Some (Flat ls)" ..
  then have "map_of rl' ''way of the hero'' = Some (Flat ls)"
    by (simp add: record_states_flat[OF assms])
  with m show ?thesis by (simp add: woth_locs_def)
next
  case False
  then have a: "\<And>ls. map_of rl ''way of the hero'' \<noteq> Some (Flat ls)" by simp
  then have b: "\<And>ls. map_of rl' ''way of the hero'' \<noteq> Some (Flat ls)"
    by (simp add: record_states_flat[OF assms])
  have "woth_locs rl = []"
    using a by (auto simp: woth_locs_def split: option.splits rl_entry.splits)
  moreover have "woth_locs rl' = []"
    using b by (auto simp: woth_locs_def split: option.splits rl_entry.splits)
  ultimately show ?thesis by simp
qed

lemma woth_step_cases:
  assumes "woth_step ctx vg L rl = Inr rl'"
  shows "rl' = rl \<or> (search_woth ctx \<and> woth_append L rl = Inr rl')"
  using assms unfolding woth_step_def
  by (auto split: if_splits option.splits)

lemma weighted_upto:
  assumes up: "cats_upto_weight cs cs'" and w: "weighted cs c g"
  shows "weighted cs' c g"
proof -
  from w obtain kc goal where kc: "kc \<in> set cs" "cat_name (snd kc) = c"
    "cat_weight (snd kc) = 1" and g: "goal \<in> set (goals (snd kc))" "goal_name goal = g"
    "weight goal = 1"
    unfolding weighted_def by blast
  from kc(1) obtain i where i: "i < length cs" "cs ! i = kc"
    by (auto simp: in_set_conv_nth)
  from up have len: "length cs = length cs'"
    and rel: "\<And>j. j < length cs \<Longrightarrow> cat_upto_weight (snd (cs ! j)) (snd (cs' ! j))"
    by (auto simp: cats_upto_weight_def list_all2_conv_all_nth)
  from rel[OF i(1)] i(2) have cu: "cat_upto_weight (snd kc) (snd (cs' ! i))" by simp
  then have gl: "list_all2 goal_upto_weight (goals (snd kc)) (goals (snd (cs' ! i)))"
    and cw: "cat_weight (snd (cs' ! i)) = cat_weight (snd kc) \<or> cat_weight (snd (cs' ! i)) = 1"
    by (simp_all add: cat_upto_weight_def)
  from g(1) obtain j where j: "j < length (goals (snd kc))" "goals (snd kc) ! j = goal"
    by (auto simp: in_set_conv_nth)
  from gl j have gu: "goal_upto_weight goal (goals (snd (cs' ! i)) ! j)"
    and jl: "j < length (goals (snd (cs' ! i)))"
    by (auto simp: list_all2_conv_all_nth)
  have "cs' ! i \<in> set cs'" using i(1) len by simp
  moreover have "goals (snd (cs' ! i)) ! j \<in> set (goals (snd (cs' ! i)))"
    using jl by simp
  moreover have "goal_name (goals (snd (cs' ! i)) ! j) = g"
    using goal_upto_weight_name[OF gu] g(2) by simp
  moreover have "weight (goals (snd (cs' ! i)) ! j) = 1"
    using goal_upto_weight_one[OF gu g(3)] .
  moreover have "cat_name (snd (cs' ! i)) = c"
    using cat_upto_weight_name[OF cu] kc(2) by simp
  moreover have "cat_weight (snd (cs' ! i)) = 1"
    using cw kc(3) by auto
  ultimately show ?thesis
    unfolding weighted_def
    by (intro bexI[where x = "cs' ! i"] bexI[where x = "goals (snd (cs' ! i)) ! j"] conjI)
qed

lemma categories_loop_weighted:
  assumes run: "categories_loop ctx vg wids L oi cs rp = Inr (cs', rp')"
    and ok: "weights_ok cs (fst rp)"
  shows "weights_ok cs' (fst rp')"
  unfolding weights_ok_def
proof (intro allI impI)
  fix c g w
  assume ne: "rl_locs (fst rp') c g w \<noteq> []"
  show "weighted cs' c g"
  proof (cases "rl_locs (fst rp) c g w = []")
    case True
    with ne have "set (rl_locs (fst rp') c g w) \<noteq> set (rl_locs (fst rp) c g w)" by simp
    from categories_loop_new[OF run this] show ?thesis
      unfolding weighted_def .
  next
    case False
    with ok have "weighted cs c g" unfolding weights_ok_def by blast
    with categories_loop_upto[OF run] show ?thesis by (rule weighted_upto)
  qed
qed

lemma location_body_cases:
  assumes "location_body ops ctx wids L st = Inr st'"
  shows "(L \<notin> set (item_locations ctx) \<and> st' = st) \<or>
    (L \<in> set (item_locations ctx) \<and>
     (\<exists>cs rl prio rl'.
        categories_loop ctx
          (beatable_goals ops (sg_search st) (L\<lparr>loc_item := None\<rparr>) (sg_categories st))
          wids L (loc_item L) (sg_categories st) (sg_required st, sg_priority st)
          = Inr (cs, rl, prio) \<and>
        woth_step ctx
          (beatable_goals ops (sg_search st) (L\<lparr>loc_item := None\<rparr>) (sg_categories st))
          L rl = Inr rl' \<and>
        st' = st\<lparr>sg_required := rl', sg_priority := prio, sg_categories := cs\<rparr>))"
  using assms unfolding location_body_def
  by (auto split: if_splits sum.splits)

lemma recorded_ok_same_locs:
  assumes "\<And>c g w. rl_locs rl' c g w = rl_locs rl c g w"
    and "recorded_ok ctx cats ys rl prio"
  shows "recorded_ok ctx cats ys rl' prio"
  using assms(2) unfolding recorded_ok_def by (simp add: assms(1))

lemma weights_ok_same_locs:
  assumes "\<And>c g w. rl_locs rl' c g w = rl_locs rl c g w"
    and "weights_ok cs rl"
  shows "weights_ok cs rl'"
  using assms(2) unfolding weights_ok_def by (simp add: assms(1))

lemma recorded_ok_more_yielded:
  assumes "recorded_ok ctx cats ys rl prio" and "set ys \<subseteq> set ys'"
  shows "recorded_ok ctx cats ys' rl prio"
  unfolding recorded_ok_def
proof (intro allI impI)
  fix c g w x
  assume "x \<in> set (rl_locs rl c g w)"
  from recorded_okD[OF assms(1) this] assms(2)
  show "claimed_by prio (fst x) = Some c \<and> snd x = snd (location_weights ctx (fst x)) \<and>
        fst x \<in> set ys' \<and> fst x \<in> set (item_locations ctx) \<and>
        credited_through ctx cats c g (fst x)"
    by blast
qed

lemma woth_step_keeps:
  assumes ws: "woth_step ctx vg L rl = Inr rl'"
    and L: "L \<in> set ys"
    and r: "recorded_ok ctx cats ys rl prio" and k: "keys_ok ctx cats rl"
    and w: "weights_ok cs rl" and s: "set (woth_locs rl) \<subseteq> set ys"
  shows "recorded_ok ctx cats ys rl' prio \<and> keys_ok ctx cats rl' \<and> weights_ok cs rl' \<and>
    set (woth_locs rl') \<subseteq> set ys"
proof -
  from woth_step_cases[OF ws] show ?thesis
  proof
    assume "rl' = rl"
    with r k w s show ?thesis by simp
  next
    assume "search_woth ctx \<and> woth_append L rl = Inr rl'"
    then have a: "woth_append L rl = Inr rl'" ..
    have "recorded_ok ctx cats ys rl' prio"
      by (rule recorded_ok_same_locs[OF woth_append_locs[OF a] r])
    moreover have "keys_ok ctx cats rl'"
      by (rule woth_append_keys[OF a k])
    moreover have "weights_ok cs rl'"
      by (rule weights_ok_same_locs[OF woth_append_locs[OF a] w])
    moreover have "set (woth_locs rl') \<subseteq> set ys"
      using s L by (simp add: woth_append_woth[OF a])
    ultimately show ?thesis by simp
  qed
qed

lemma location_body_inv:
  assumes run: "location_body ops ctx wids L st = Inr st'"
    and inv: "sg_inv ctx cats st"
    and L: "L \<in> set (sg_yielded st)"
  shows "sg_inv ctx cats st' \<and> sg_yielded st' = sg_yielded st \<and> sg_misc st' = sg_misc st \<and>
    sg_search st' = sg_search st"
proof -
  from inv have up: "cats_upto_weight cats (sg_categories st)"
    and r0: "recorded_ok ctx cats (sg_yielded st) (sg_required st) (sg_priority st)"
    and k0: "keys_ok ctx cats (sg_required st)"
    and w0: "weights_ok (sg_categories st) (sg_required st)"
    and s0: "set (woth_locs (sg_required st)) \<subseteq> set (sg_yielded st)"
    unfolding sg_inv_def by simp_all
  let ?vg = "beatable_goals ops (sg_search st) (L\<lparr>loc_item := None\<rparr>) (sg_categories st)"
  let ?P = "\<lambda>rl prio. recorded_ok ctx cats (sg_yielded st) rl prio \<and> keys_ok ctx cats rl \<and>
     set (woth_locs rl) \<subseteq> set (sg_yielded st)"
  from location_body_cases[OF run] show ?thesis
  proof
    assume "L \<notin> set (item_locations ctx) \<and> st' = st"
    with inv show ?thesis by simp
  next
    assume "L \<in> set (item_locations ctx) \<and>
     (\<exists>cs rl prio rl'.
        categories_loop ctx ?vg wids L (loc_item L) (sg_categories st)
          (sg_required st, sg_priority st) = Inr (cs, rl, prio) \<and>
        woth_step ctx ?vg L rl = Inr rl' \<and>
        st' = st\<lparr>sg_required := rl', sg_priority := prio, sg_categories := cs\<rparr>)"
    then obtain cs rl prio rl' where Li: "L \<in> set (item_locations ctx)"
      and cl: "categories_loop ctx ?vg wids L (loc_item L) (sg_categories st)
          (sg_required st, sg_priority st) = Inr (cs, (rl, prio))"
      and ws: "woth_step ctx ?vg L rl = Inr rl'"
      and st': "st' = st\<lparr>sg_required := rl', sg_priority := prio, sg_categories := cs\<rparr>"
      by auto
    have "?P (fst (rl, prio)) (snd (rl, prio))"
    proof (rule categories_loop_keeps[where P = ?P, OF cl])
      show "?P (fst (sg_required st, sg_priority st)) (snd (sg_required st, sg_priority st))"
        using r0 k0 s0 by simp
    next
      fix key cat goal rl0 prio0 hs rl0'
      assume kc: "(key, cat) \<in> set (sg_categories st)" and g: "goal \<in> set (goals cat)"
        and P: "?P rl0 prio0"
        and un: "unclaimed prio0 L (cat_name cat) = Inr True"
        and nr: "not_required ctx goal (loc_item L) = Inr True"
        and rec: "record_states ctx L (cat_name cat) (goal_name goal) hs rl0 = Inr rl0'"
      have ct: "credited_through ctx cats (cat_name cat) (goal_name goal) L"
        by (rule upto_credited[OF up kc g nr])
      from P have r: "recorded_ok ctx cats (sg_yielded st) rl0 prio0"
        and k: "keys_ok ctx cats rl0" and s: "set (woth_locs rl0) \<subseteq> set (sg_yielded st)"
        by simp_all
      have "recorded_ok ctx cats (sg_yielded st) rl0' (set_priority prio0 L (cat_name cat))"
        by (rule credit_keeps_recorded[OF r un L Li ct rec])
      moreover have "keys_ok ctx cats rl0'"
        by (rule credit_keeps_keys[OF k ct rec])
      moreover have "set (woth_locs rl0') \<subseteq> set (sg_yielded st)"
        using s by (simp add: record_states_woth[OF rec])
      ultimately show "?P rl0' (set_priority prio0 L (cat_name cat))" by simp
    qed
    then have r1: "recorded_ok ctx cats (sg_yielded st) rl prio"
      and k1: "keys_ok ctx cats rl" and s1: "set (woth_locs rl) \<subseteq> set (sg_yielded st)"
      by simp_all
    from categories_loop_weighted[OF cl] w0 have w1: "weights_ok cs rl" by simp
    from woth_step_keeps[OF ws L r1 k1 w1 s1]
    have "recorded_ok ctx cats (sg_yielded st) rl' prio \<and> keys_ok ctx cats rl' \<and>
      weights_ok cs rl' \<and> set (woth_locs rl') \<subseteq> set (sg_yielded st)" .
    moreover have "cats_upto_weight cats cs"
      by (rule cats_upto_weight_trans[OF up categories_loop_upto[OF cl]])
    ultimately show ?thesis
      unfolding sg_inv_def by (simp add: st')
  qed
qed

lemma sg_inv_yield:
  assumes "sg_inv ctx cats st"
  shows "sg_inv ctx cats (st\<lparr>sg_search := s1, sg_yielded := sg_yielded st @ [L]\<rparr>)"
proof -
  from assms have r: "recorded_ok ctx cats (sg_yielded st) (sg_required st) (sg_priority st)"
    unfolding sg_inv_def by simp
  have "recorded_ok ctx cats (sg_yielded st @ [L]) (sg_required st) (sg_priority st)"
    by (rule recorded_ok_more_yielded[OF r]) auto
  with assms show ?thesis unfolding sg_inv_def by auto
qed

lemma sg_inv_collect:
  "sg_inv ctx cats st \<Longrightarrow> sg_inv ctx cats (st\<lparr>sg_search := s2, sg_misc := m\<rparr>)"
  unfolding sg_inv_def by simp

lemma search_loop_step:
  assumes run: "search_loop ops ctx wids remaining st = Inr (rem', st')"
    and nx: "next_reachable ops (all_locations ctx) (sg_search st) = Some (L, s1)"
  shows "\<exists>st1 s2.
    location_body ops ctx wids L (st\<lparr>sg_search := s1, sg_yielded := sg_yielded st @ [L]\<rparr>)
      = Inr st1 \<and>
    L \<in> set remaining \<and> collect_step ops L (sg_search st1) = Inr s2 \<and>
    search_loop ops ctx wids (remove1 L remaining)
      (st1\<lparr>sg_search := s2, sg_misc := sg_misc st1 @ [L]\<rparr>) = Inr (rem', st')"
proof -
  let ?st0 = "st\<lparr>sg_search := s1, sg_yielded := sg_yielded st @ [L]\<rparr>"
  from run nx obtain st1 where b: "location_body ops ctx wids L ?st0 = Inr st1"
    by (cases "location_body ops ctx wids L ?st0") (simp_all add: search_loop.simps[of ops ctx wids remaining st])
  from run nx b have m: "L \<in> set remaining"
    by (cases "L \<in> set remaining") (simp_all add: search_loop.simps[of ops ctx wids remaining st])
  from run nx b m obtain s2 where c: "collect_step ops L (sg_search st1) = Inr s2"
    by (cases "collect_step ops L (sg_search st1)")
      (simp_all add: search_loop.simps[of ops ctx wids remaining st])
  from run nx b m c have "search_loop ops ctx wids (remove1 L remaining)
      (st1\<lparr>sg_search := s2, sg_misc := sg_misc st1 @ [L]\<rparr>) = Inr (rem', st')"
    by (simp add: search_loop.simps[of ops ctx wids remaining st])
  with b m c show ?thesis by blast
qed

lemma search_loop_stop:
  assumes run: "search_loop ops ctx wids remaining st = Inr (rem', st')"
    and nx: "next_reachable ops (all_locations ctx) (sg_search st) = None"
  shows "rem' = remaining \<and> st' = st"
  using run nx by (simp add: search_loop.simps[of ops ctx wids remaining st])

lemma search_loop_inv:
  "search_loop ops ctx wids remaining st = Inr (rem', st') \<Longrightarrow> sg_inv ctx cats st \<Longrightarrow>
   set (all_locations ctx) \<subseteq> set (sg_yielded st) \<union> set remaining \<Longrightarrow>
   sg_inv ctx cats st' \<and> set (all_locations ctx) \<subseteq> set (sg_yielded st') \<union> set rem'"
proof (induction ops ctx wids remaining st rule: search_loop.induct)
  case (1 ops ctx wids remaining st)
  show ?case
  proof (cases "next_reachable ops (all_locations ctx) (sg_search st)")
    case None
    from search_loop_stop[OF "1.prems"(1) None] "1.prems"(2,3) show ?thesis by simp
  next
    case (Some p)
    obtain L s1 where p: "p = (L, s1)" by (cases p)
    let ?st0 = "st\<lparr>sg_search := s1, sg_yielded := sg_yielded st @ [L]\<rparr>"
    from Some p have nx: "next_reachable ops (all_locations ctx) (sg_search st) = Some (L, s1)"
      by simp
    from search_loop_step[OF "1.prems"(1) nx] obtain st1 s2 where
      b: "location_body ops ctx wids L ?st0 = Inr st1" and m: "L \<in> set remaining" and
      c: "collect_step ops L (sg_search st1) = Inr s2" and
      r: "search_loop ops ctx wids (remove1 L remaining)
           (st1\<lparr>sg_search := s2, sg_misc := sg_misc st1 @ [L]\<rparr>) = Inr (rem', st')"
      by blast
    have i0: "sg_inv ctx cats ?st0" by (rule sg_inv_yield[OF "1.prems"(2)])
    have "L \<in> set (sg_yielded ?st0)" by simp
    from location_body_inv[OF b i0 this] have i1: "sg_inv ctx cats st1"
      and y1: "sg_yielded st1 = sg_yielded st @ [L]" by simp_all
    let ?st2 = "st1\<lparr>sg_search := s2, sg_misc := sg_misc st1 @ [L]\<rparr>"
    have i2: "sg_inv ctx cats ?st2" by (rule sg_inv_collect[OF i1])
    have "set remaining \<subseteq> insert L (set (remove1 L remaining))"
    proof
      fix x assume "x \<in> set remaining"
      then show "x \<in> insert L (set (remove1 L remaining))"
        by (cases "x = L") simp_all
    qed
    with "1.prems"(3) y1
    have a2: "set (all_locations ctx) \<subseteq> set (sg_yielded ?st2) \<union> set (remove1 L remaining)"
      by auto
    from "1.IH"[OF nx refl b m c r i2 a2] show ?thesis .
  qed
qed

subsection \<open>What holds when the search returns\<close>

lemma rl_locs_initial [simp]:
  "rl_locs [] c g w = []" "rl_locs [(''way of the hero'', Flat [])] c g w = []"
  by (simp_all add: rl_locs_def)

lemma sg_inv_initial:
  "sg_inv ctx cats
     \<lparr>sg_required = (if search_woth ctx then [(''way of the hero'', Flat [])] else []),
      sg_priority = prio, sg_categories = cats, sg_search = s, sg_misc = [], sg_yielded = []\<rparr>"
  unfolding sg_inv_def
  by (simp add: cats_upto_weight_refl recorded_ok_def keys_ok_def weights_ok_def woth_locs_def)

lemma search_goals_cases:
  assumes "search_goals ops ctx categories search prio = Inr st"
  shows "\<exists>rem st1. search_loop ops ctx (world_ids_of ops search) (all_locations ctx)
             \<lparr>sg_required = (if search_woth ctx then [(''way of the hero'', Flat [])] else []),
              sg_priority = prio, sg_categories = categories,
              sg_search = search, sg_misc = [], sg_yielded = []\<rparr> = Inr (rem, st1) \<and>
           st = st1\<lparr>sg_misc := sg_misc st1 @ rem\<rparr>"
  using assms unfolding search_goals_def
  by (auto split: sum.splits)

lemma search_goals_inv:
  assumes "search_goals ops ctx categories search prio = Inr st"
  shows "sg_inv ctx categories st \<and>
    set (all_locations ctx) \<subseteq> set (sg_yielded st) \<union> set (sg_misc st)"
proof -
  from search_goals_cases[OF assms] obtain rem st1 where
    l: "search_loop ops ctx (world_ids_of ops search) (all_locations ctx)
             \<lparr>sg_required = (if search_woth ctx then [(''way of the hero'', Flat [])] else []),
              sg_priority = prio, sg_categories = categories,
              sg_search = search, sg_misc = [], sg_yielded = []\<rparr> = Inr (rem, st1)" and
    st: "st = st1\<lparr>sg_misc := sg_misc st1 @ rem\<rparr>"
    by blast
  from search_loop_inv[OF l sg_inv_initial] have
    i: "sg_inv ctx categories st1" and
    a: "set (all_locations ctx) \<subseteq> set (sg_yielded st1) \<union> set rem"
    by simp_all
  from i have "sg_inv ctx categories st" unfolding sg_inv_def by (simp add: st)
  moreover from a have "set (all_locations ctx) \<subseteq> set (sg_yielded st) \<union> set (sg_misc st)"
    by (auto simp: st)
  ultimately show ?thesis by simp
qed

lemma search_goals_recorded:
  assumes "search_goals ops ctx categories search prio = Inr st"
    and "x \<in> set (rl_locs (sg_required st) c g w)"
  shows "claimed_by (sg_priority st) (fst x) = Some c \<and>
    snd x = snd (location_weights ctx (fst x)) \<and> fst x \<in> set (sg_yielded st) \<and>
    fst x \<in> set (item_locations ctx) \<and> credited_through ctx categories c g (fst x)"
proof -
  from search_goals_inv[OF assms(1)]
  have "recorded_ok ctx categories (sg_yielded st) (sg_required st) (sg_priority st)"
    unfolding sg_inv_def by simp
  from recorded_okD[OF this assms(2)] show ?thesis .
qed

subsection \<open>The example search\<close>

lemma ex_search_goals_run:
  "search_goals ex_ops ex_ctx ex_categories 0 [(0, [])] = Inr ex_sg_result"
  by code_simp

subsection \<open>One category per location\<close>























subsection \<open>Locations that are never reached\<close>

text \<open>
  C5. A location of the candidate list that the generator has never yielded is in no list
  of the required locations returned and not in the way of the hero, and
  \<^verbatim>\<open>maybe_set_misc_hints\<close> has been called on it.
\<close>

theorem unreached_location_is_not_required:
  assumes run: "search_goals ops ctx categories search priority_locations = Inr st"
    and L: "L \<in> set (all_locations ctx)" and ny: "L \<notin> set (sg_yielded st)"
  shows "(\<forall>c g w a b. (L, a, b) \<notin> set (rl_locs (sg_required st) c g w)) \<and>
    L \<notin> set (woth_locs (sg_required st)) \<and> L \<in> set (sg_misc st)"
proof (intro conjI allI)
  fix c g w a b
  show "(L, a, b) \<notin> set (rl_locs (sg_required st) c g w)"
  proof
    assume "(L, a, b) \<in> set (rl_locs (sg_required st) c g w)"
    from search_goals_recorded[OF run this] ny show False by simp
  qed
next
  from search_goals_inv[OF run]
  have "set (woth_locs (sg_required st)) \<subseteq> set (sg_yielded st)"
    unfolding sg_inv_def by simp
  with ny show "L \<notin> set (woth_locs (sg_required st))" by blast
next
  from search_goals_inv[OF run] L ny show "L \<in> set (sg_misc st)" by blast
qed

theorem unreached_location_is_not_required_witness:
  "search_goals ex_ops ex_ctx ex_categories 0 [(0, [])] = Inr ex_sg_result \<and>
   ex_L2 \<in> set (all_locations ex_ctx) \<and> ex_L2 \<notin> set (sg_yielded ex_sg_result) \<and>
   ex_L2 \<notin> set (woth_locs (sg_required ex_sg_result)) \<and>
   (ex_L2, 1, 1) \<notin> set (rl_locs (sg_required ex_sg_result) ''bridge'' ''open bridge'' 0) \<and>
   ex_L2 \<in> set (sg_misc ex_sg_result)"
proof -
  have a: "ex_L2 \<in> set (all_locations ex_ctx)" by code_simp
  have b: "ex_L2 \<notin> set (sg_yielded ex_sg_result)" by code_simp
  from unreached_location_is_not_required [OF ex_search_goals_run a b] a b
  show ?thesis by (simp add: ex_search_goals_run)
qed

subsection \<open>Weights\<close>

text \<open>
  C6. When \<^verbatim>\<open>search_goals\<close> returns, every tuple recorded for a location has the weights
  \<open>(0, 0)\<close> if the name of the location is among the always hinted names or among the hint
  exclusions of the location's world, and \<open>(1, 1)\<close> otherwise; and wherever a list of the
  required locations is not empty, a category of that name has weight 1 and a goal of that
  name in it has weight 1. A step of the loop over the goals that records anything returns
  the goal with weight 1 and the weight 1 for its category.
\<close>

theorem recorded_weights:
  assumes run: "search_goals ops ctx categories search priority_locations = Inr st"
  shows "(\<forall>c g w x. x \<in> set (rl_locs (sg_required st) c g w) \<longrightarrow>
            snd x = (if loc_name (fst x) \<in> set (always_locations ctx) \<or>
                        loc_name (fst x) \<in> set (world_hint_exclusions ctx (loc_world (fst x)))
                     then (0, 0) else (1, 1))) \<and>
         (\<forall>c g w. rl_locs (sg_required st) c g w \<noteq> [] \<longrightarrow>
            (\<exists>kc \<in> set (sg_categories st). cat_name (snd kc) = c \<and> cat_weight (snd kc) = 1 \<and>
               (\<exists>goal \<in> set (goals (snd kc)). goal_name goal = g \<and> weight goal = 1))) \<and>
         (\<forall>vg wids L old_item c goal acc goal' acc'.
            goal_step ctx vg wids L old_item c goal acc = Inr (goal', acc') \<longrightarrow>
            acc_required acc' \<noteq> acc_required acc \<longrightarrow>
            weight goal' = 1 \<and> acc_cat_weight acc' = 1)"
proof (intro conjI allI impI)
  fix c g w x
  assume "x \<in> set (rl_locs (sg_required st) c g w)"
  from search_goals_recorded[OF run this]
  have "snd x = snd (location_weights ctx (fst x))" by simp
  then show "snd x = (if loc_name (fst x) \<in> set (always_locations ctx) \<or>
                        loc_name (fst x) \<in> set (world_hint_exclusions ctx (loc_world (fst x)))
                     then (0, 0) else (1, 1))"
    by (simp add: location_weights_def)
next
  fix c g w
  assume ne: "rl_locs (sg_required st) c g w \<noteq> []"
  from search_goals_inv[OF run] have "weights_ok (sg_categories st) (sg_required st)"
    unfolding sg_inv_def by simp
  with ne have "weighted (sg_categories st) c g"
    unfolding weights_ok_def by blast
  then show "\<exists>kc \<in> set (sg_categories st). cat_name (snd kc) = c \<and> cat_weight (snd kc) = 1 \<and>
               (\<exists>goal \<in> set (goals (snd kc)). goal_name goal = g \<and> weight goal = 1)"
    unfolding weighted_def .
next
  fix vg wids L old_item c goal acc goal' acc'
  assume s: "goal_step ctx vg wids L old_item c goal acc = Inr (goal', acc')"
    and ne: "acc_required acc' \<noteq> acc_required acc"
  from goal_step_cases[OF s] ne show "weight goal' = 1" by auto
  from goal_step_cases[OF s] ne show "acc_cat_weight acc' = 1" by auto
qed

theorem recorded_weights_witness:
  "search_goals ex_ops ex_ctx ex_categories 0 [(0, [])] = Inr ex_sg_result \<and>
   rl_locs (sg_required ex_sg_result) ''bridge'' ''open bridge'' 0 = [(ex_L1, 1, 1)] \<and>
   weighted (sg_categories ex_sg_result) ''bridge'' ''open bridge'' \<and>
   location_weights (ex_ctx\<lparr>always_locations := [''L1'']\<rparr>) ex_L1 = (ex_L1, 0, 0)"
proof -
  have a: "rl_locs (sg_required ex_sg_result) ''bridge'' ''open bridge'' 0 = [(ex_L1, 1, 1)]"
    by code_simp
  have b: "weighted (sg_categories ex_sg_result) ''bridge'' ''open bridge''"
    by code_simp
  have c: "location_weights (ex_ctx\<lparr>always_locations := [''L1'']\<rparr>) ex_L1 = (ex_L1, 0, 0)"
    by code_simp
  from recorded_weights [OF ex_search_goals_run] a b c
  show ?thesis by (simp add: ex_search_goals_run)
qed

subsection \<open>Items that a goal requires\<close>

lemma not_required_True:
  "not_required ctx goal (Some it) = Inr True \<longleftrightarrow>
   requires (item_table ctx) (goal_heap ctx) goal (item_name it) = Inr False"
  by (cases "requires (item_table ctx) (goal_heap ctx) goal (item_name it)")
    (auto simp: not_required_def)

text \<open>
  C7. \<^verbatim>\<open>requires\<close> is true exactly when an item spec of the goal that is marked as not
  hintable bears the name of the item or the alias that the item table declares for it
  (an item that is not in the table raises \<^verbatim>\<open>KeyError\<close>). A step of the loop over the goals
  for a goal that requires the detached item changes nothing. When \<^verbatim>\<open>search_goals\<close> returns,
  a location whose item is required by every goal named \<open>g\<close> of every category named \<open>c\<close>
  is in no list recorded under \<open>c\<close> and \<open>g\<close>, whatever \<^verbatim>\<open>beatable_goals\<close> has answered.
\<close>

theorem required_item_is_never_credited:
  "requires tbl h g0 item =
     (case map_of tbl item of
        None \<Rightarrow> Inl KeyError
      | Some special \<Rightarrow>
          Inr (\<exists>i \<in> set (items_at h (items g0)).
                 (gi_name i = item \<or> (\<exists>alias n. special = Some (alias, n) \<and> gi_name i = alias))
                 \<and> \<not> hintable i)) \<and>
   (\<forall>vg wids L it c goal acc goal' acc'.
      requires (item_table ctx) (goal_heap ctx) goal (item_name it) = Inr True \<longrightarrow>
      goal_step ctx vg wids L (Some it) c goal acc = Inr (goal', acc') \<longrightarrow>
      goal' = goal \<and> acc' = acc) \<and>
   (\<forall>st L it c g w a b.
      search_goals ops ctx categories search priority_locations = Inr st \<longrightarrow>
      loc_item L = Some it \<longrightarrow>
      (\<forall>kc \<in> set categories. cat_name (snd kc) = c \<longrightarrow>
         (\<forall>goal \<in> set (goals (snd kc)). goal_name goal = g \<longrightarrow>
            requires (item_table ctx) (goal_heap ctx) goal (item_name it) = Inr True)) \<longrightarrow>
      (L, a, b) \<notin> set (rl_locs (sg_required st) c g w))"
proof (intro conjI allI impI)
  show "requires tbl h g0 item =
     (case map_of tbl item of
        None \<Rightarrow> Inl KeyError
      | Some special \<Rightarrow>
          Inr (\<exists>i \<in> set (items_at h (items g0)).
                 (gi_name i = item \<or> (\<exists>alias n. special = Some (alias, n) \<and> gi_name i = alias))
                 \<and> \<not> hintable i))"
    by (auto simp: requires_def list_ex_iff split: option.splits)
next
  fix vg wids L it c goal acc goal' acc'
  assume rq: "requires (item_table ctx) (goal_heap ctx) goal (item_name it) = Inr True"
    and s: "goal_step ctx vg wids L (Some it) c goal acc = Inr (goal', acc')"
  from rq have "not_required ctx goal (Some it) \<noteq> Inr True"
    by (simp add: not_required_True)
  with goal_step_cases[OF s] show "goal' = goal" by auto
  from rq have "not_required ctx goal (Some it) \<noteq> Inr True"
    by (simp add: not_required_True)
  with goal_step_cases[OF s] show "acc' = acc" by auto
next
  fix st and L :: Location and it c g w a b
  assume run: "search_goals ops ctx categories search priority_locations = Inr st"
    and it: "loc_item L = Some it"
    and all: "\<forall>kc \<in> set categories. cat_name (snd kc) = c \<longrightarrow>
         (\<forall>goal \<in> set (goals (snd kc)). goal_name goal = g \<longrightarrow>
            requires (item_table ctx) (goal_heap ctx) goal (item_name it) = Inr True)"
  show "(L, a, b) \<notin> set (rl_locs (sg_required st) c g w)"
  proof
    assume "(L, a, b) \<in> set (rl_locs (sg_required st) c g w)"
    from search_goals_recorded[OF run this]
    have "credited_through ctx categories c g L" by simp
    then obtain kc goal where kc: "kc \<in> set categories" "cat_name (snd kc) = c"
      and g: "goal \<in> set (goals (snd kc))" "goal_name goal = g"
      and nr: "not_required ctx goal (loc_item L) = Inr True"
      unfolding credited_through_def by blast
    from nr it have "requires (item_table ctx) (goal_heap ctx) goal (item_name it) = Inr False"
      by (simp add: not_required_True)
    moreover from all kc g
    have "requires (item_table ctx) (goal_heap ctx) goal (item_name it) = Inr True"
      by blast
    ultimately show False by simp
  qed
qed

theorem required_item_is_never_credited_witness:
  "requires (item_table ex_ctx) (goal_heap ex_ctx) (ex_sg_goal ''collect tokens'' 3)
     ''Medallion'' = Inr True \<and>
   search_goals ex_ops ex_ctx ex_categories 0 [(0, [])] = Inr ex_sg_result \<and>
   in_valid_goals (ex_valid_goals []) ''tokens'' ''collect tokens'' = Inr True \<and>
   hintable_states ex_ctx (ex_valid_goals []) [0] ''tokens'' ''collect tokens'' = [0] \<and>
   (ex_L1, 1, 1) \<notin> set (rl_locs (sg_required ex_sg_result) ''tokens'' ''collect tokens'' 0)"
proof -
  have a: "requires (item_table ex_ctx) (goal_heap ex_ctx) (ex_sg_goal ''collect tokens'' 3)
     ''Medallion'' = Inr True"
    by code_simp
  have b: "in_valid_goals (ex_valid_goals []) ''tokens'' ''collect tokens'' = Inr True"
    by code_simp
  have c: "hintable_states ex_ctx (ex_valid_goals []) [0] ''tokens'' ''collect tokens'' = [0]"
    by code_simp
  have d: "(ex_L1, 1, 1) \<notin>
      set (rl_locs (sg_required ex_sg_result) ''tokens'' ''collect tokens'' 0)"
    by code_simp
  from required_item_is_never_credited [where ops = ex_ops and ctx = ex_ctx
      and categories = ex_categories and search = 0 and priority_locations = "[(0, [])]"
      and tbl = "item_table ex_ctx" and h = "goal_heap ex_ctx"
      and ?g0.0 = "ex_sg_goal ''collect tokens'' 3" and item = "''Medallion''"] a b c d
  show ?thesis by (simp add: ex_search_goals_run)
qed

subsection \<open>The key of the way of the hero\<close>

lemma in_valid_goals_True:
  "in_valid_goals vg c g = Inr True \<Longrightarrow> \<exists>d. map_of vg c = Some (VGoals d)"
  by (auto simp: in_valid_goals_def split: option.splits vg_entry.splits)

lemma in_reachable_goals_True:
  "in_reachable_goals rg c g = Inr True \<Longrightarrow> \<exists>d. map_of rg c = Some (VGoals d)"
  by (auto simp: in_reachable_goals_def split: option.splits vg_entry.splits)

lemma location_body_no_woth:
  assumes run: "location_body ops ctx wids L st = Inr st'"
    and flag: "(\<forall>d. map_of (reachable_goals ctx) ''way of the hero'' \<noteq> Some (VGoals d)) \<or>
       (\<forall>s L cs d. map_of (beatable_goals ops s L cs) ''way of the hero'' \<noteq> Some (VGoals d))"
    and nw: "\<not> search_woth ctx"
    and none: "map_of (sg_required st) ''way of the hero'' = None"
  shows "map_of (sg_required st') ''way of the hero'' = None"
proof -
  let ?vg = "beatable_goals ops (sg_search st) (L\<lparr>loc_item := None\<rparr>) (sg_categories st)"
  let ?P = "\<lambda>rl (prio :: (nat \<times> (string \<times> string) list) list).
     map_of rl ''way of the hero'' = None"
  from location_body_cases[OF run] show ?thesis
  proof
    assume "L \<notin> set (item_locations ctx) \<and> st' = st"
    with none show ?thesis by simp
  next
    assume "L \<in> set (item_locations ctx) \<and>
     (\<exists>cs rl prio rl'.
        categories_loop ctx ?vg wids L (loc_item L) (sg_categories st)
          (sg_required st, sg_priority st) = Inr (cs, rl, prio) \<and>
        woth_step ctx ?vg L rl = Inr rl' \<and>
        st' = st\<lparr>sg_required := rl', sg_priority := prio, sg_categories := cs\<rparr>)"
    then obtain cs rl prio rl' where
      cl: "categories_loop ctx ?vg wids L (loc_item L) (sg_categories st)
          (sg_required st, sg_priority st) = Inr (cs, (rl, prio))"
      and ws: "woth_step ctx ?vg L rl = Inr rl'"
      and st': "st' = st\<lparr>sg_required := rl', sg_priority := prio, sg_categories := cs\<rparr>"
      by auto
    have "?P (fst (rl, prio)) (snd (rl, prio))"
    proof (rule categories_loop_keeps[where P = ?P, OF cl])
      show "?P (fst (sg_required st, sg_priority st)) (snd (sg_required st, sg_priority st))"
        using none by simp
    next
      fix key :: string and cat :: GoalCategory and goal :: Goal and rl0 prio0 hs rl0'
      assume P: "?P rl0 prio0"
        and rec: "record_states ctx L (cat_name cat) (goal_name goal) hs rl0 = Inr rl0'"
        and iv: "in_valid_goals ?vg (cat_name cat) (goal_name goal) = Inr True"
        and ir: "in_reachable_goals (reachable_goals ctx) (cat_name cat) (goal_name goal)
                  = Inr True"
      from in_valid_goals_True[OF iv] in_reachable_goals_True[OF ir] flag
      have ne: "''way of the hero'' \<noteq> cat_name cat" by auto
      from record_states_keys[OF rec ne] P
      show "?P rl0' (set_priority prio0 L (cat_name cat))" by simp
    qed
    then have "map_of rl ''way of the hero'' = None" by simp
    moreover from woth_step_cases[OF ws] nw have "rl' = rl" by simp
    ultimately show ?thesis by (simp add: st')
  qed
qed

lemma search_loop_no_woth:
  "search_loop ops ctx wids remaining st = Inr (rem', st') \<Longrightarrow>
   (\<forall>d. map_of (reachable_goals ctx) ''way of the hero'' \<noteq> Some (VGoals d)) \<or>
   (\<forall>s L cs d. map_of (beatable_goals ops s L cs) ''way of the hero'' \<noteq> Some (VGoals d)) \<Longrightarrow>
   \<not> search_woth ctx \<Longrightarrow>
   map_of (sg_required st) ''way of the hero'' = None \<Longrightarrow>
   map_of (sg_required st') ''way of the hero'' = None"
proof (induction ops ctx wids remaining st rule: search_loop.induct)
  case (1 ops ctx wids remaining st)
  show ?case
  proof (cases "next_reachable ops (all_locations ctx) (sg_search st)")
    case None
    from search_loop_stop[OF "1.prems"(1) None] "1.prems"(4) show ?thesis by simp
  next
    case (Some p)
    obtain L s1 where p: "p = (L, s1)" by (cases p)
    let ?st0 = "st\<lparr>sg_search := s1, sg_yielded := sg_yielded st @ [L]\<rparr>"
    from Some p have nx: "next_reachable ops (all_locations ctx) (sg_search st) = Some (L, s1)"
      by simp
    from search_loop_step[OF "1.prems"(1) nx] obtain st1 s2 where
      b: "location_body ops ctx wids L ?st0 = Inr st1" and m: "L \<in> set remaining" and
      c: "collect_step ops L (sg_search st1) = Inr s2" and
      r: "search_loop ops ctx wids (remove1 L remaining)
           (st1\<lparr>sg_search := s2, sg_misc := sg_misc st1 @ [L]\<rparr>) = Inr (rem', st')"
      by blast
    have "map_of (sg_required ?st0) ''way of the hero'' = None"
      using "1.prems"(4) by simp
    from location_body_no_woth[OF b "1.prems"(2) "1.prems"(3) this]
    have "map_of (sg_required (st1\<lparr>sg_search := s2, sg_misc := sg_misc st1 @ [L]\<rparr>))
        ''way of the hero'' = None"
      by simp
    from "1.IH"[OF nx refl b m c r "1.prems"(2) "1.prems"(3) this] show ?thesis .
  qed
qed

lemma search_goals_no_woth:
  assumes run: "search_goals ops ctx categories search prio = Inr st"
    and flag: "(\<forall>d. map_of (reachable_goals ctx) ''way of the hero'' \<noteq> Some (VGoals d)) \<or>
       (\<forall>s L cs d. map_of (beatable_goals ops s L cs) ''way of the hero'' \<noteq> Some (VGoals d))"
    and nw: "\<not> search_woth ctx"
  shows "map_of (sg_required st) ''way of the hero'' = None"
proof -
  from search_goals_cases[OF run] obtain rem st1 where
    l: "search_loop ops ctx (world_ids_of ops search) (all_locations ctx)
             \<lparr>sg_required = (if search_woth ctx then [(''way of the hero'', Flat [])] else []),
              sg_priority = prio, sg_categories = categories,
              sg_search = search, sg_misc = [], sg_yielded = []\<rparr> = Inr (rem, st1)" and
    st: "st = st1\<lparr>sg_misc := sg_misc st1 @ rem\<rparr>"
    by blast
  from search_loop_no_woth[OF l flag nw] nw
  have "map_of (sg_required st1) ''way of the hero'' = None" by simp
  then show ?thesis by (simp add: st)
qed

text \<open>
  C10. When \<^verbatim>\<open>search_goals\<close> is called with \<^verbatim>\<open>search_woth\<close> and returns, the dictionary has
  the key \<^verbatim>\<open>way of the hero\<close> and holds a plain list of locations there, also when no
  location has qualified. The key is there exactly when \<^verbatim>\<open>search_woth\<close> is set, for all
  categories, when \<^verbatim>\<open>ValidGoals\<close> is as \<^verbatim>\<open>Search.py\<close> builds it: no dictionary of goals under
  the key \<^verbatim>\<open>way of the hero\<close>, in \<^verbatim>\<open>reachable_goals\<close> or in the answers of \<^verbatim>\<open>beatable_goals\<close>.
  The same holds, whatever these dictionaries are, when no category is named
  \<^verbatim>\<open>way of the hero\<close>.
\<close>

theorem search_woth_key:
  assumes run: "search_goals ops ctx categories search priority_locations = Inr st"
  shows "(search_woth ctx \<longrightarrow>
            (\<exists>ls. map_of (sg_required st) ''way of the hero'' = Some (Flat ls))) \<and>
         ((\<forall>d. map_of (reachable_goals ctx) ''way of the hero'' \<noteq> Some (VGoals d)) \<or>
          (\<forall>s L cs d. map_of (beatable_goals ops s L cs) ''way of the hero'' \<noteq> Some (VGoals d))
          \<longrightarrow> (map_of (sg_required st) ''way of the hero'' \<noteq> None \<longleftrightarrow> search_woth ctx)) \<and>
         ((\<forall>kc \<in> set categories. cat_name (snd kc) \<noteq> ''way of the hero'')
          \<longrightarrow> (map_of (sg_required st) ''way of the hero'' \<noteq> None \<longleftrightarrow> search_woth ctx))"
proof -
  from search_goals_inv[OF run] have k: "keys_ok ctx categories (sg_required st)"
    unfolding sg_inv_def by simp
  have fl: "search_woth ctx \<Longrightarrow>
      \<exists>ls. map_of (sg_required st) ''way of the hero'' = Some (Flat ls)"
    by (rule keys_okD3[OF k])
  have a: "map_of (sg_required st) ''way of the hero'' \<noteq> None \<longleftrightarrow> search_woth ctx"
    if flag: "(\<forall>d. map_of (reachable_goals ctx) ''way of the hero'' \<noteq> Some (VGoals d)) \<or>
       (\<forall>s L cs d. map_of (beatable_goals ops s L cs) ''way of the hero'' \<noteq> Some (VGoals d))"
  proof (cases "search_woth ctx")
    case True
    with fl show ?thesis by auto
  next
    case False
    with search_goals_no_woth[OF run flag] show ?thesis by simp
  qed
  have b: "map_of (sg_required st) ''way of the hero'' \<noteq> None \<longleftrightarrow> search_woth ctx"
    if no: "\<forall>kc \<in> set categories. cat_name (snd kc) \<noteq> ''way of the hero''"
  proof (cases "search_woth ctx")
    case True
    with fl show ?thesis by auto
  next
    case False
    have "map_of (sg_required st) ''way of the hero'' = None"
    proof (rule ccontr)
      assume "map_of (sg_required st) ''way of the hero'' \<noteq> None"
      from keys_okD1[OF k this] no False show False by blast
    qed
    with False show ?thesis by simp
  qed
  from fl a b show ?thesis by blast
qed

theorem search_woth_key_witness:
  "search_goals ex_ops ex_ctx ex_categories 0 [(0, [])] = Inr ex_sg_result \<and>
   (\<forall>d. map_of (reachable_goals ex_ctx) ''way of the hero'' \<noteq> Some (VGoals d)) \<and>
   list_all (\<lambda>kc. cat_name (snd kc) \<noteq> ''way of the hero'') ex_categories \<and>
   search_woth ex_ctx \<and>
   map_of (sg_required ex_sg_result) ''way of the hero'' = Some (Flat [ex_L1]) \<and>
   map_sum id (\<lambda>st. map_of (sg_required st) ''way of the hero'')
     (search_goals ex_ops (ex_ctx\<lparr>search_woth := False\<rparr>) ex_categories 0 [(0, [])])
   = Inr None \<and>
   map_sum id (\<lambda>st. map_of (sg_required st) ''way of the hero'')
     (search_goals ex_ops (ex_ctx\<lparr>reachable_goals := ex_valid_goals [], search_woth := False\<rparr>)
        ex_hero_categories 0 [(0, [])])
   = Inr None"
proof -
  have a: "map_sum id (\<lambda>st. map_of (sg_required st) ''way of the hero'')
     (search_goals ex_ops (ex_ctx\<lparr>search_woth := False\<rparr>) ex_categories 0 [(0, [])])
   = Inr None"
    by code_simp
  have b: "list_all (\<lambda>kc. cat_name (snd kc) \<noteq> ''way of the hero'') ex_categories"
    by code_simp
  have c: "search_woth ex_ctx" by code_simp
  have d: "map_of (sg_required ex_sg_result) ''way of the hero'' = Some (Flat [ex_L1])"
    by code_simp
  have e: "\<forall>d. map_of (reachable_goals ex_ctx) ''way of the hero'' \<noteq> Some (VGoals d)"
    by (simp add: ex_ctx_def ex_valid_goals_def)
  have f: "map_sum id (\<lambda>st. map_of (sg_required st) ''way of the hero'')
     (search_goals ex_ops (ex_ctx\<lparr>reachable_goals := ex_valid_goals [], search_woth := False\<rparr>)
        ex_hero_categories 0 [(0, [])])
   = Inr None"
    by code_simp
  from search_woth_key [OF ex_search_goals_run] a b c d e f
  show ?thesis by (simp add: ex_search_goals_run)
qed

subsection \<open>The fallback to the way of the hero\<close>

lemma cells_append: "r < length h \<Longrightarrow> cells (h @ ext) r = cells h r"
  by (simp add: cells_def nth_append)

lemma items_at_append: "r < length h \<Longrightarrow> items_at (h @ ext) r = items_at h r"
  by (simp add: items_at_def cells_append)

lemma reqlocs_at_append: "r < length h \<Longrightarrow> reqlocs_at (h @ ext) r = reqlocs_at h r"
  by (simp add: reqlocs_at_def cells_append)

lemma hero_goal_value:
  "hero_goal h world ls =
     Inr (\<lparr>goal_world = world_id world, goal_name = ''the hero'',
            hint_text = Plain ''way of the hero'', color = ''White'', items = length h,
            locations = None, lock_locations = None, lock_entrances = Suc (length h),
            required_locations = Suc (Suc (Suc (length h))), weight = 0, category = None,
            item_cache = []\<rparr>,
          h @ [Items [\<lparr>gi_name = ''Triforce'', quantity = 1, minimum = 1, hintable = True\<rparr>],
               Names [], ReqLocs [],
               ReqLocs (map (\<lambda>location. (location, 1, 1, [world_id world])) ls)])"
  by (simp add: hero_goal_def Goal_init_def alloc_def cells_def validColors_def nth_append)

lemma hero_category_copy:
  "\<exists>c' ext. GoalCategory_copy
      (h @ [Items [\<lparr>gi_name = ''Triforce'', quantity = 1, minimum = 1, hintable = True\<rparr>],
            Names [], ReqLocs [], ReqLocs ls])
      (add_goal (GoalCategory_init ''ganon'' 30 1 1 None None)
        \<lparr>goal_world = wid, goal_name = ''the hero'',
            hint_text = Plain ''way of the hero'', color = ''White'', items = length h,
            locations = None, lock_locations = None, lock_entrances = Suc (length h),
            required_locations = Suc (Suc (Suc (length h))), weight = 0, category = None,
            item_cache = []\<rparr>)
    = Inr (c', (h @ [Items [\<lparr>gi_name = ''Triforce'', quantity = 1, minimum = 1,
                              hintable = True\<rparr>], Names [], ReqLocs [], ReqLocs ls]) @ ext) \<and>
      cat_name c' = ''ganon'' \<and> length (goals c') = 1"
  by (cases "ls = []")
    (simp_all add: GoalCategory_copy_def add_goal_def GoalCategory_init_def Goal_copy_def
      Goal_init_def alloc_def cells_def validColors_def nth_append)

lemma synthesize_world_value:
  assumes "map_of (sp_required_locations sp) (world_id w) = Some ls"
  shows "\<exists>h1 w' c'. synthesize_world h w sp =
      Inr (h1, w',
           sp\<lparr>sp_goal_locations :=
                set_goal_locations (world_id w) ''ganon'' ''the hero'' (world_id w) ls
                  (sp_goal_locations sp),
              sp_goal_categories :=
                AList.update (world_id w) [(''ganon'', c')] (sp_goal_categories sp)\<rparr>) \<and>
      (\<exists>ext. h1 = h @ ext) \<and> hero_world h1 ls w w' \<and>
      cat_name c' = ''ganon'' \<and> length (goals c') = 1"
proof -
  let ?g = "\<lparr>goal_world = world_id w, goal_name = ''the hero'',
            hint_text = Plain ''way of the hero'', color = ''White'', items = length h,
            locations = None, lock_locations = None, lock_entrances = Suc (length h),
            required_locations = Suc (Suc (Suc (length h))), weight = 0, category = None,
            item_cache = []\<rparr>"
  let ?h4 = "h @ [Items [\<lparr>gi_name = ''Triforce'', quantity = 1, minimum = 1, hintable = True\<rparr>],
               Names [], ReqLocs [],
               ReqLocs (map (\<lambda>location. (location, 1, 1, [world_id w])) ls)]"
  let ?c = "add_goal (GoalCategory_init ''ganon'' 30 1 1 None None) ?g"
  let ?w' = "w\<lparr>goal_categories := AList.update ''ganon'' ?c (goal_categories w)\<rparr>"
  from hero_category_copy[of h "map (\<lambda>location. (location, 1, 1, [world_id w])) ls" "world_id w"]
  obtain c' ext where
    cp: "GoalCategory_copy ?h4 ?c = Inr (c', ?h4 @ ext)" and
    c': "cat_name c' = ''ganon''" "length (goals c') = 1"
    by blast
  have run: "synthesize_world h w sp =
      Inr (?h4 @ ext, ?w',
           sp\<lparr>sp_goal_locations :=
                set_goal_locations (world_id w) ''ganon'' ''the hero'' (world_id w) ls
                  (sp_goal_locations sp),
              sp_goal_categories :=
                AList.update (world_id w) [(''ganon'', c')] (sp_goal_categories sp)\<rparr>)"
    unfolding synthesize_world_def
    using cp by (simp add: dict_get_def assms hero_goal_value)
  have hw: "hero_world (?h4 @ ext) ls w ?w'"
    by (simp add: hero_world_def update_conv' add_goal_def GoalCategory_init_def
        items_at_def reqlocs_at_def cells_def nth_append)
  have "\<exists>e. ?h4 @ ext = h @ e" by simp
  with run hw c' show ?thesis by blast
qed

lemma hero_world_extend:
  assumes "hero_world h ls w w'"
  shows "hero_world (h @ ext) ls w w'"
  using assms unfolding hero_world_def
  by (auto split: option.splits list.splits simp: items_at_append reqlocs_at_append)

lemma woth_by_world_lookup:
  "map_of (woth_by_world worlds woth d) k =
     (if k \<in> world_id ` set worlds then Some (filter (\<lambda>location. loc_world location = k) woth)
      else map_of d k)"
  by (induction worlds arbitrary: d) (auto simp: update_conv')

lemma goal_locations_at_set:
  "goal_locations_at (sp\<lparr>sp_goal_locations := set_goal_locations gw c g w ls d\<rparr>) gw' c' g' w' =
     (if gw' = gw \<and> c' = c \<and> g' = g \<and> w' = w then ls
      else goal_locations_at (sp\<lparr>sp_goal_locations := d\<rparr>) gw' c' g' w')"
  by (simp add: goal_locations_at_def set_goal_locations_def update_conv')

lemma goal_locations_at_cong:
  "sp_goal_locations sp = sp_goal_locations sp' \<Longrightarrow>
   goal_locations_at sp gw c g w = goal_locations_at sp' gw c g w"
  by (simp add: goal_locations_at_def)

lemma synthesize_worlds_value:
  "\<forall>w \<in> set worlds. map_of (sp_required_locations sp) (world_id w) = Some (f (world_id w)) \<Longrightarrow>
   \<exists>h' worlds' sp'. synthesize_worlds h worlds sp = Inr (h', worlds', sp') \<and>
     (\<exists>ext. h' = h @ ext) \<and>
     sp_required_locations sp' = sp_required_locations sp \<and>
     length worlds' = length worlds \<and>
     (\<forall>i < length worlds. hero_world h' (f (world_id (worlds ! i))) (worlds ! i) (worlds' ! i)) \<and>
     (\<forall>gw c g x. goal_locations_at sp' gw c g x =
        (if gw \<in> world_id ` set worlds \<and> c = ''ganon'' \<and> g = ''the hero'' \<and> x = gw then f gw
         else goal_locations_at sp gw c g x)) \<and>
     (\<forall>k. if k \<in> world_id ` set worlds
          then \<exists>c. map_of (sp_goal_categories sp') k = Some [(''ganon'', c)] \<and>
                 cat_name c = ''ganon'' \<and> length (goals c) = 1
          else map_of (sp_goal_categories sp') k = map_of (sp_goal_categories sp) k)"
proof (induction worlds arbitrary: h sp)
  case Nil
  then show ?case by simp
next
  case (Cons w rest)
  from Cons.prems have rq: "map_of (sp_required_locations sp) (world_id w) = Some (f (world_id w))"
    by simp
  let ?sp1 = "\<lambda>c'. sp\<lparr>sp_goal_locations :=
                set_goal_locations (world_id w) ''ganon'' ''the hero'' (world_id w)
                  (f (world_id w)) (sp_goal_locations sp),
              sp_goal_categories :=
                AList.update (world_id w) [(''ganon'', c')] (sp_goal_categories sp)\<rparr>"
  from synthesize_world_value[OF rq, of h] obtain h1 w' c' ext1 where
    s1: "synthesize_world h w sp = Inr (h1, w', ?sp1 c')" and
    h1: "h1 = h @ ext1" and hw: "hero_world h1 (f (world_id w)) w w'" and
    c': "cat_name c' = ''ganon''" "length (goals c') = 1"
    by blast
  have "\<forall>w \<in> set rest. map_of (sp_required_locations (?sp1 c')) (world_id w)
      = Some (f (world_id w))"
    using Cons.prems by simp
  from Cons.IH[OF this, of h1] obtain h2 rest' sp2 ext2 where
    s2: "synthesize_worlds h1 rest (?sp1 c') = Inr (h2, rest', sp2)" and
    h2: "h2 = h1 @ ext2" and
    rq2: "sp_required_locations sp2 = sp_required_locations (?sp1 c')" and
    len: "length rest' = length rest" and
    hws: "\<forall>i < length rest. hero_world h2 (f (world_id (rest ! i))) (rest ! i) (rest' ! i)" and
    gl: "\<forall>gw c g x. goal_locations_at sp2 gw c g x =
        (if gw \<in> world_id ` set rest \<and> c = ''ganon'' \<and> g = ''the hero'' \<and> x = gw then f gw
         else goal_locations_at (?sp1 c') gw c g x)" and
    gc: "\<forall>k. if k \<in> world_id ` set rest
          then \<exists>c. map_of (sp_goal_categories sp2) k = Some [(''ganon'', c)] \<and>
                 cat_name c = ''ganon'' \<and> length (goals c) = 1
          else map_of (sp_goal_categories sp2) k = map_of (sp_goal_categories (?sp1 c')) k"
    by blast
  have run: "synthesize_worlds h (w # rest) sp = Inr (h2, w' # rest', sp2)"
    using s1 s2 by simp
  have e: "\<exists>ext. h2 = h @ ext" using h1 h2 by simp
  have r: "sp_required_locations sp2 = sp_required_locations sp" using rq2 by simp
  have l: "length (w' # rest') = length (w # rest)" using len by simp
  have a: "\<forall>i < length (w # rest).
      hero_world h2 (f (world_id ((w # rest) ! i))) ((w # rest) ! i) ((w' # rest') ! i)"
  proof (intro allI impI)
    fix i assume i: "i < length (w # rest)"
    show "hero_world h2 (f (world_id ((w # rest) ! i))) ((w # rest) ! i) ((w' # rest') ! i)"
    proof (cases i)
      case 0
      with hero_world_extend[OF hw, of ext2] h2 show ?thesis by simp
    next
      case (Suc j)
      with i hws show ?thesis by simp
    qed
  qed
  have b: "\<forall>gw c g x. goal_locations_at sp2 gw c g x =
        (if gw \<in> world_id ` set (w # rest) \<and> c = ''ganon'' \<and> g = ''the hero'' \<and> x = gw
         then f gw else goal_locations_at sp gw c g x)"
  proof (intro allI)
    fix gw c g x
    have "goal_locations_at (?sp1 c') gw c g x =
        (if gw = world_id w \<and> c = ''ganon'' \<and> g = ''the hero'' \<and> x = world_id w
         then f (world_id w) else goal_locations_at sp gw c g x)"
      by (simp add: goal_locations_at_def set_goal_locations_def update_conv')
    moreover from gl have "goal_locations_at sp2 gw c g x =
        (if gw \<in> world_id ` set rest \<and> c = ''ganon'' \<and> g = ''the hero'' \<and> x = gw then f gw
         else goal_locations_at (?sp1 c') gw c g x)"
      by blast
    ultimately show "goal_locations_at sp2 gw c g x =
        (if gw \<in> world_id ` set (w # rest) \<and> c = ''ganon'' \<and> g = ''the hero'' \<and> x = gw
         then f gw else goal_locations_at sp gw c g x)"
      by auto
  qed
  have d: "\<forall>k. if k \<in> world_id ` set (w # rest)
          then \<exists>c. map_of (sp_goal_categories sp2) k = Some [(''ganon'', c)] \<and>
                 cat_name c = ''ganon'' \<and> length (goals c) = 1
          else map_of (sp_goal_categories sp2) k = map_of (sp_goal_categories sp) k"
  proof (intro allI)
    fix k
    show "if k \<in> world_id ` set (w # rest)
          then \<exists>c. map_of (sp_goal_categories sp2) k = Some [(''ganon'', c)] \<and>
                 cat_name c = ''ganon'' \<and> length (goals c) = 1
          else map_of (sp_goal_categories sp2) k = map_of (sp_goal_categories sp) k"
    proof (cases "k \<in> world_id ` set rest")
      case True
      with spec[OF gc, of k] show ?thesis by simp
    next
      case False
      with spec[OF gc, of k]
      have "map_of (sp_goal_categories sp2) k = map_of (sp_goal_categories (?sp1 c')) k"
        by simp
      with False c' show ?thesis by (auto simp: update_conv')
    qed
  qed
  from run e r l a b d show ?case by blast
qed

lemma fallback_condition_True:
  "fallback_condition required worlds = Inr True \<longleftrightarrow>
     required = [] \<and> worlds \<noteq> [] \<and> map_of (goal_categories (hd worlds)) ''ganon'' = None \<and>
     use_default_goals (hd worlds) \<and> enable_goal_hints (hd worlds)"
  by (cases worlds) (auto simp: fallback_condition_def)

text \<open>
  C4. Where, at the end of \<^verbatim>\<open>update_goal_items\<close>, the required locations are empty, the
  first world has no category under the key \<^verbatim>\<open>ganon\<close> and has default goals and goal hints
  enabled, the function returns and has made, for every world, one category \<^verbatim>\<open>ganon\<close> of
  priority 30 that it stores in the world under that key, with the one goal \<^verbatim>\<open>the hero\<close>,
  whose required locations are the way-of-the-hero locations of that world, in their order,
  each as the tuple \<^verbatim>\<open>(location, 1, 1, [world.id])\<close>. The spoiler holds these locations under
  \<^verbatim>\<open>required_locations[world.id]\<close> and under
  \<^verbatim>\<open>goal_locations[world.id]['ganon']['the hero'][world.id]\<close>, and under
  \<^verbatim>\<open>goal_categories[world.id]\<close> a dictionary with one category, \<^verbatim>\<open>ganon\<close>, of one goal.
\<close>

theorem fallback_makes_one_hero_category_per_world:
  assumes "required = []" and "worlds \<noteq> []"
    and "map_of (goal_categories (hd worlds)) ''ganon'' = None"
    and "use_default_goals (hd worlds)" and "enable_goal_hints (hd worlds)"
  shows "\<exists>h' worlds' sp'.
     update_goal_items_end otherwise h worlds sp required woth_locations
       = Inr (h', worlds', sp') \<and>
     length worlds' = length worlds \<and>
     (\<forall>i < length worlds.
        hero_world h'
          (filter (\<lambda>location. loc_world location = world_id (worlds ! i)) woth_locations)
          (worlds ! i) (worlds' ! i) \<and>
        map_of (sp_required_locations sp') (world_id (worlds ! i)) =
          Some (filter (\<lambda>location. loc_world location = world_id (worlds ! i)) woth_locations) \<and>
        goal_locations_at sp' (world_id (worlds ! i)) ''ganon'' ''the hero''
            (world_id (worlds ! i)) =
          filter (\<lambda>location. loc_world location = world_id (worlds ! i)) woth_locations \<and>
        (\<exists>c. map_of (sp_goal_categories sp') (world_id (worlds ! i)) = Some [(''ganon'', c)] \<and>
           cat_name c = ''ganon'' \<and> length (goals c) = 1))"
proof -
  let ?f = "\<lambda>k. filter (\<lambda>location. loc_world location = k) woth_locations"
  let ?sp0 = "sp\<lparr>sp_required_locations := woth_by_world worlds woth_locations [],
                  sp_goal_locations := []\<rparr>"
  from assms have cond: "fallback_condition required worlds = Inr True"
    by (simp add: fallback_condition_True)
  have rq: "\<forall>w \<in> set worlds. map_of (sp_required_locations ?sp0) (world_id w)
      = Some (?f (world_id w))"
    by (simp add: woth_by_world_lookup)
  from synthesize_worlds_value[where f = ?f, OF rq, of h] obtain h' worlds' sp' where
    run: "synthesize_worlds h worlds ?sp0 = Inr (h', worlds', sp')" and
    r: "sp_required_locations sp' = sp_required_locations ?sp0" and
    l: "length worlds' = length worlds" and
    a: "\<forall>i < length worlds. hero_world h' (?f (world_id (worlds ! i))) (worlds ! i) (worlds' ! i)" and
    b: "\<forall>gw c g x. goal_locations_at sp' gw c g x =
        (if gw \<in> world_id ` set worlds \<and> c = ''ganon'' \<and> g = ''the hero'' \<and> x = gw then ?f gw
         else goal_locations_at ?sp0 gw c g x)" and
    d: "\<forall>k. if k \<in> world_id ` set worlds
          then \<exists>c. map_of (sp_goal_categories sp') k = Some [(''ganon'', c)] \<and>
                 cat_name c = ''ganon'' \<and> length (goals c) = 1
          else map_of (sp_goal_categories sp') k = map_of (sp_goal_categories ?sp0) k"
    by blast
  have e: "update_goal_items_end otherwise h worlds sp required woth_locations
      = Inr (h', worlds', sp')"
    unfolding update_goal_items_end_def cond using run by simp
  have "hero_world h' (?f (world_id (worlds ! i))) (worlds ! i) (worlds' ! i) \<and>
        map_of (sp_required_locations sp') (world_id (worlds ! i)) =
          Some (?f (world_id (worlds ! i))) \<and>
        goal_locations_at sp' (world_id (worlds ! i)) ''ganon'' ''the hero''
            (world_id (worlds ! i)) = ?f (world_id (worlds ! i)) \<and>
        (\<exists>c. map_of (sp_goal_categories sp') (world_id (worlds ! i)) = Some [(''ganon'', c)] \<and>
           cat_name c = ''ganon'' \<and> length (goals c) = 1)"
    if i: "i < length worlds" for i
  proof -
    from i have m: "world_id (worlds ! i) \<in> world_id ` set worlds" by simp
    from a i have 1: "hero_world h' (?f (world_id (worlds ! i))) (worlds ! i) (worlds' ! i)"
      by simp
    from m have 2: "map_of (sp_required_locations sp') (world_id (worlds ! i)) =
          Some (?f (world_id (worlds ! i)))"
      by (simp add: r woth_by_world_lookup)
    from spec[OF spec[OF spec[OF spec[OF b, of "world_id (worlds ! i)"], of "''ganon''"],
        of "''the hero''"], of "world_id (worlds ! i)"] m
    have 3: "goal_locations_at sp' (world_id (worlds ! i)) ''ganon'' ''the hero''
            (world_id (worlds ! i)) = ?f (world_id (worlds ! i))"
      by simp
    from spec[OF d, of "world_id (worlds ! i)"] m
    have 4: "\<exists>c. map_of (sp_goal_categories sp') (world_id (worlds ! i)) = Some [(''ganon'', c)] \<and>
           cat_name c = ''ganon'' \<and> length (goals c) = 1"
      by simp
    from 1 2 3 4 show ?thesis by simp
  qed
  with e l show ?thesis by blast
qed

theorem fallback_makes_one_hero_category_per_world_witness:
  "[] = ([] :: RequiredLocations) \<and> ex_hero_worlds \<noteq> [] \<and>
   map_of (goal_categories (hd ex_hero_worlds)) ''ganon'' = None \<and>
   use_default_goals (hd ex_hero_worlds) \<and> enable_goal_hints (hd ex_hero_worlds) \<and>
   map_sum id (\<lambda>r. (map (world_summary (fst r)) (fst (snd r)),
                     sp_required_locations (snd (snd r)),
                     sp_goal_locations (snd (snd r))))
     (update_goal_items_end (\<lambda>h ws sp. Inr (h, ws, sp)) [] ex_hero_worlds
        \<lparr>sp_required_locations = [], sp_goal_categories = [], sp_goal_locations = []\<rparr>
        [] ex_hero_woth)
   = Inr ([[(''ganon'', ''ganon'', 30,
              [(''the hero'', [(ex_L1, 1, 1, [0]), (ex_L2, 1, 1, [0])])])],
           [(''ganon'', ''ganon'', 30,
              [(''the hero'', [(ex_L2\<lparr>loc_world := 1\<rparr>, 1, 1, [1])])])]],
          [(0, [ex_L1, ex_L2]), (1, [ex_L2\<lparr>loc_world := 1\<rparr>])],
          [(0, [(''ganon'', [(''the hero'', [(0, [ex_L1, ex_L2])])])]),
           (1, [(''ganon'', [(''the hero'', [(1, [ex_L2\<lparr>loc_world := 1\<rparr>])])])])])"
proof -
  have a: "ex_hero_worlds \<noteq> []" by (simp add: ex_hero_worlds_def)
  have b: "map_of (goal_categories (hd ex_hero_worlds)) ''ganon'' = None"
    by (simp add: ex_hero_worlds_def ex_bridge_world_def)
  have c: "use_default_goals (hd ex_hero_worlds)" "enable_goal_hints (hd ex_hero_worlds)"
    by (simp_all add: ex_hero_worlds_def ex_bridge_world_def)
  have d: "map_sum id (\<lambda>r. (map (world_summary (fst r)) (fst (snd r)),
                     sp_required_locations (snd (snd r)),
                     sp_goal_locations (snd (snd r))))
     (update_goal_items_end (\<lambda>h ws sp. Inr (h, ws, sp)) [] ex_hero_worlds
        \<lparr>sp_required_locations = [], sp_goal_categories = [], sp_goal_locations = []\<rparr>
        [] ex_hero_woth)
   = Inr ([[(''ganon'', ''ganon'', 30,
              [(''the hero'', [(ex_L1, 1, 1, [0]), (ex_L2, 1, 1, [0])])])],
           [(''ganon'', ''ganon'', 30,
              [(''the hero'', [(ex_L2\<lparr>loc_world := 1\<rparr>, 1, 1, [1])])])]],
          [(0, [ex_L1, ex_L2]), (1, [ex_L2\<lparr>loc_world := 1\<rparr>])],
          [(0, [(''ganon'', [(''the hero'', [(0, [ex_L1, ex_L2])])])]),
           (1, [(''ganon'', [(''the hero'', [(1, [ex_L2\<lparr>loc_world := 1\<rparr>])])])])])"
    by code_simp
  from fallback_makes_one_hero_category_per_world [OF refl a b c,
      where otherwise = "\<lambda>h ws sp. Inr (h, ws, sp)" and h = "[]"
      and sp = "\<lparr>sp_required_locations = [], sp_goal_categories = [], sp_goal_locations = []\<rparr>"
      and woth_locations = ex_hero_woth] a b c d
  show ?thesis by simp
qed

end
